theory Spec2Isabelle
  imports Complex_Main
begin

section \<open>Template engine (src/lib/utils/template-parser.ts)\<close>

text \<open>
  Strings are lists of characters. The only characters the template engine inspects are
  the two braces and the ASCII word characters of the regular expression class
  \<^verbatim>\<open>\w\<close>; every other character is copied.
\<close>

definition is_word :: "char \<Rightarrow> bool" where
  "is_word c \<longleftrightarrow>
     c \<in> set (''abcdefghijklmnopqrstuvwxyz'' @ ''ABCDEFGHIJKLMNOPQRSTUVWXYZ'' @ ''0123456789_'')"

text \<open>
  One attempt of the regular expression \<^verbatim>\<open>/\{\{(\w+)\}\}/\<close> at the head of a string:
  two opening braces, the longest non-empty run of word characters, two closing braces.
  The run is greedy, and giving characters back never helps, since the character after a
  shorter run is a word character and not a brace. The result is the captured group and
  the text after the match.
\<close>

definition match_token :: "string \<Rightarrow> (string \<times> string) option" where
  "match_token s =
     (if take 2 s = ''{{'' then
        (let key = takeWhile is_word (drop 2 s);
             rest = dropWhile is_word (drop 2 s)
         in if key \<noteq> [] \<and> take 2 rest = ''}}'' then Some (key, drop 2 rest) else None)
      else None)"

lemma match_token_length:
  "match_token s = Some (key, rest) \<Longrightarrow> length rest < length s"
proof -
  assume m: "match_token s = Some (key, rest)"
  then have r: "rest = drop 2 (dropWhile is_word (drop 2 s))" and k: "key \<noteq> []"
    and k': "key = takeWhile is_word (drop 2 s)"
    by (auto simp: match_token_def Let_def split: if_splits)
  have "length (dropWhile is_word (drop 2 s)) \<le> length (drop 2 s)"
    by (rule length_dropWhile_le)
  moreover have "drop 2 s \<noteq> []" using k k' by auto
  ultimately show ?thesis using r by auto
qed

text \<open>
  The global flag: the text is scanned from left to right; where the expression matches,
  the match is one segment and the scan goes on after it, elsewhere one character is
  passed over.
\<close>

datatype segment = Tok string | Lit char

function tokenize :: "string \<Rightarrow> segment list" where
  "tokenize [] = []"
| "tokenize (c # cs) =
     (case match_token (c # cs) of
        Some (key, rest) \<Rightarrow> Tok key # tokenize rest
      | None \<Rightarrow> Lit c # tokenize cs)"
  by pat_completeness auto
termination
  by (relation "measure length") (auto dest: match_token_length)

text \<open>
  \<^verbatim>\<open>text.replace(/\{\{(\w+)\}\}/g, callback)\<close>: every match is replaced by what the
  callback returns for the matched text and the captured group, inserted as it is.
\<close>

definition token_text :: "string \<Rightarrow> string" where
  "token_text key = ''{{'' @ key @ ''}}''"

definition replace_tokens :: "string \<Rightarrow> (string \<Rightarrow> string \<Rightarrow> string) \<Rightarrow> string" where
  "replace_tokens text callback =
     concat (map (\<lambda>seg. case seg of Tok key \<Rightarrow> callback (token_text key) key | Lit c \<Rightarrow> [c])
                 (tokenize text))"

text \<open>
  The variables object is read by property lookup: \<open>variables key\<close> is the value of
  \<^verbatim>\<open>variables[key]\<close> as a string, \<open>None\<close> when the lookup gives \<^verbatim>\<open>undefined\<close>.
  \<^verbatim>\<open>variables[key] || match\<close> falls back to the matched text when the value is
  undefined and also when it is the empty string, which JavaScript counts as false.
\<close>

type_synonym TemplateVariables = "string \<rightharpoonup> string"

definition replaceVariables :: "string \<Rightarrow> TemplateVariables \<Rightarrow> string" where
  "replaceVariables text variables =
     replace_tokens text
       (\<lambda>match key. case variables key of
                       Some s \<Rightarrow> if s = [] then match else s
                     | None \<Rightarrow> match)"

text \<open>The identifiers of the tokens of a text, in order, and the characters outside them.\<close>

definition token_keys :: "string \<Rightarrow> string list" where
  "token_keys text = concat (map (\<lambda>seg. case seg of Tok key \<Rightarrow> [key] | Lit c \<Rightarrow> []) (tokenize text))"


text \<open>
  \<^verbatim>\<open>extractVariables\<close>: the matches with the braces removed, duplicates dropped, first
  occurrence first (the order of insertion of a JavaScript \<^verbatim>\<open>Set\<close>).
\<close>

definition extractVariables :: "string \<Rightarrow> string list" where
  "extractVariables template = rev (remdups (rev (token_keys template)))"


subsection \<open>Building the variables of a lead\<close>

record Lead =
  lead_id :: string
  email :: string
  first_name :: "string option"
  last_name :: "string option"
  company_name :: "string option"
  industry :: "string option"
  city :: "string option"
  state :: "string option"
  lead_status :: string

text \<open>\<^verbatim>\<open>x || d\<close> on a nullable string: \<open>d\<close> when \<open>x\<close> is null or empty.\<close>

definition or_else :: "string option \<Rightarrow> string \<Rightarrow> string" where
  "or_else x d = (case x of Some s \<Rightarrow> if s = [] then d else s | None \<Rightarrow> d)"

text \<open>\<^verbatim>\<open>x || null\<close> and \<^verbatim>\<open>x || undefined\<close> on a nullable string: an empty string counts as none.\<close>

definition truthy :: "string option \<Rightarrow> string option" where
  "truthy x = (case x of Some s \<Rightarrow> if s = [] then None else Some s | None \<Rightarrow> None)"

text \<open>
  \<^verbatim>\<open>trim()\<close> removes white space at both ends; of the characters it removes, the ones
  below are those a single character of this model can be (the last is the no-break
  space).
\<close>

definition is_space :: "char \<Rightarrow> bool" where
  "is_space c \<longleftrightarrow> c \<in> {CHR '' '', CHR 0x09, CHR 0x0A, CHR 0x0B, CHR 0x0C, CHR 0x0D, CHR 0xA0}"

definition trim :: "string \<Rightarrow> string" where
  "trim s = rev (dropWhile is_space (rev (dropWhile is_space s)))"

text \<open>
  \<open>buildVariables\<close> returns an object literal. Its own properties are the eight fields
  below; a lookup of any other name goes on to the properties every object literal
  inherits from the runtime (\<^verbatim>\<open>constructor\<close>, \<^verbatim>\<open>toString\<close>, ...), which are not part
  of this repository: \<open>inherited\<close> gives their string conversions.
\<close>

definition buildVariables :: "TemplateVariables \<Rightarrow> Lead \<Rightarrow> TemplateVariables" where
  "buildVariables inherited lead = inherited ++ map_of
     [(''firstName'', or_else (first_name lead) ''there''),
      (''lastName'', or_else (last_name lead) []),
      (''fullName'',
         or_else (Some (trim (or_else (first_name lead) [] @ '' '' @ or_else (last_name lead) [])))
                 ''there''),
      (''company'', or_else (company_name lead) ''your company''),
      (''industry'', or_else (industry lead) ''your industry''),
      (''city'', or_else (city lead) []),
      (''state'', or_else (state lead) []),
      (''email'', email lead)]"

record Template =
  subject :: string
  body_html :: string
  body_text :: "string option"

record PersonalizedContent =
  p_subject :: string
  p_html :: string
  p_text :: "string option"

text \<open>\<^verbatim>\<open>template.body_text ? ... : undefined\<close>: a null or empty text body gives no text.\<close>

definition personalizeTemplate :: "TemplateVariables \<Rightarrow> Template \<Rightarrow> Lead \<Rightarrow> PersonalizedContent" where
  "personalizeTemplate inherited template lead =
     (let variables = buildVariables inherited lead
      in \<lparr> p_subject = replaceVariables (subject template) variables,
           p_html = replaceVariables (body_html template) variables,
           p_text = (case body_text template of
                       Some t \<Rightarrow> if t = [] then None else Some (replaceVariables t variables)
                     | None \<Rightarrow> None) \<rparr>)"

section \<open>Domain warm-up progression (the daily job of the warm-up route)\<close>

datatype WarmupStatus = WarmupActive | WarmupPaused | WarmupCompleted

text \<open>
  A row of \<^verbatim>\<open>domain_warmup\<close>, with the fields of the interface \<^verbatim>\<open>DomainWarmup\<close> the
  job reads or writes. Timestamps are milliseconds since the epoch, the value of
  \<^verbatim>\<open>Date.getTime()\<close>.
\<close>

record DomainWarmup =
  w_id :: string
  w_domain :: string
  warmup_started_at :: int
  current_daily_limit :: int
  target_daily_limit :: int
  warmup_day :: int
  total_sent :: int
  total_delivered :: int
  total_bounced :: int
  is_healthy :: bool
  w_status :: WarmupStatus
  w_updated_at :: int

definition WARMUP_SCHEDULE :: "(int \<times> int) list" where
  "WARMUP_SCHEDULE =
     [(1, 10), (3, 20), (5, 35), (7, 50), (10, 75), (14, 125), (18, 175),
      (21, 250), (25, 350), (28, 450), (32, 600), (35, 750), (40, 900), (45, 1000)]"

definition MIN_DELIVERABILITY_RATE :: rat where "MIN_DELIVERABILITY_RATE = 95"
definition MAX_BOUNCE_RATE :: rat where "MAX_BOUNCE_RATE = 2"
definition MIN_EMAILS_FOR_HEALTH_CHECK :: int where "MIN_EMAILS_FOR_HEALTH_CHECK = 50"

text \<open>
  The loop of \<open>getExpectedLimit\<close> runs over the schedule from its last entry down to its
  first and returns at the first entry whose day has been reached, its limit capped at the
  target; when it finds none it returns 10.
\<close>

fun getExpectedLimit_scan :: "(int \<times> int) list \<Rightarrow> int \<Rightarrow> int \<Rightarrow> int" where
  "getExpectedLimit_scan [] day targetLimit = 10"
| "getExpectedLimit_scan ((d, l) # entries) day targetLimit =
     (if day \<ge> d then min l targetLimit else getExpectedLimit_scan entries day targetLimit)"

definition getExpectedLimit :: "int \<Rightarrow> int \<Rightarrow> int" where
  "getExpectedLimit day targetLimit = getExpectedLimit_scan (rev WARMUP_SCHEDULE) day targetLimit"

text \<open>
  \<^verbatim>\<open>Math.ceil(Math.abs(now - start) / (1000 * 60 * 60 * 24))\<close>. The quotient is taken
  exactly. The code divides in double precision; for a span below \<open>2 ^ 53\<close> milliseconds
  (some 285,000 years) the span is a double, the rounded quotient is within \<open>2 ^ -27\<close> of
  the exact one, which is a whole number or at least \<open>1 / 86400000\<close> away from one, and so
  the two have the same ceiling.
\<close>

definition calculateDaysSinceStart :: "int \<Rightarrow> int \<Rightarrow> int" where
  "calculateDaysSinceStart start now =
     \<lceil>(of_int \<bar>now - start\<bar> :: rat) / (1000 * 60 * 60 * 24)\<rceil>"

text \<open>
  The health check. The rates are exact fractions here; the code computes them in double
  precision, which agrees with the exact comparison on the 32-bit counts of the table
  (a rate that differs from a threshold differs by far more than the rounding error, and
  the thresholds themselves, 19/20 and 1/50, come out as 95 and 2).
\<close>

definition isHealthy :: "DomainWarmup \<Rightarrow> bool" where
  "isHealthy warmup =
     (if total_sent warmup \<ge> MIN_EMAILS_FOR_HEALTH_CHECK then
        (let deliverabilityRate = of_int (total_delivered warmup) / of_int (total_sent warmup) * 100;
             bounceRate = of_int (total_bounced warmup) / of_int (total_sent warmup) * 100
         in deliverabilityRate \<ge> MIN_DELIVERABILITY_RATE \<and> bounceRate \<le> MAX_BOUNCE_RATE)
      else True)"

text \<open>The new status and the new limit of one fetched row: the chain of conditions of the loop body.\<close>

definition determine_status :: "DomainWarmup \<Rightarrow> int \<Rightarrow> WarmupStatus \<times> int" where
  "determine_status warmup expectedLimit =
     (if \<not> isHealthy warmup then (WarmupPaused, current_daily_limit warmup)
      else if current_daily_limit warmup \<ge> target_daily_limit warmup
        then (WarmupCompleted, target_daily_limit warmup)
      else if expectedLimit > current_daily_limit warmup
        then (w_status warmup, expectedLimit)
      else (w_status warmup, current_daily_limit warmup))"

text \<open>
  The update of the loop body: the fields written to every row whose id is the id of the
  fetched row, computed from the fetched row.
\<close>

definition update_warmup :: "int \<Rightarrow> DomainWarmup \<Rightarrow> DomainWarmup \<Rightarrow> DomainWarmup" where
  "update_warmup now warmup row =
     (let currentDay = calculateDaysSinceStart (warmup_started_at warmup) now;
          expectedLimit = getExpectedLimit currentDay (target_daily_limit warmup);
          (newStatus, newLimit) = determine_status warmup expectedLimit
      in row\<lparr> warmup_day := currentDay,
              current_daily_limit := newLimit,
              is_healthy := isHealthy warmup,
              w_status := newStatus,
              w_updated_at := now \<rparr>)"

text \<open>
  The handler fetches the rows with status active and runs the loop body on each, in the
  order fetched; the table is the state.
\<close>

definition warmup_handler :: "int \<Rightarrow> DomainWarmup list \<Rightarrow> DomainWarmup list" where
  "warmup_handler now table =
     fold (\<lambda>warmup tbl. map (\<lambda>row. if w_id row = w_id warmup then update_warmup now warmup row else row) tbl)
          (filter (\<lambda>w. w_status w = WarmupActive) table)
          table"

subsection \<open>The schedule as the specification words it\<close>

text \<open>
  The table entry whose day threshold is the greatest value not above the elapsed days;
  there is none before day 1.
\<close>

definition greatest_threshold :: "int \<Rightarrow> int option" where
  "greatest_threshold day =
     (let ds = filter (\<lambda>d. d \<le> day) (map fst WARMUP_SCHEDULE)
      in if ds = [] then None else Some (Max (set ds)))"

definition table_limit :: "int \<Rightarrow> int option" where
  "table_limit day =
     (case greatest_threshold day of None \<Rightarrow> None | Some d \<Rightarrow> map_of WARMUP_SCHEDULE d)"

text \<open>Unhealthy, as the specification words it: enough mail sent, and a rate beyond its threshold.\<close>

definition unhealthy :: "DomainWarmup \<Rightarrow> bool" where
  "unhealthy w \<longleftrightarrow>
     total_sent w \<ge> 50 \<and>
     ((of_int (total_delivered w) :: rat) / of_int (total_sent w) < 95 / 100 \<or>
      (of_int (total_bounced w) :: rat) / of_int (total_sent w) > 2 / 100)"

text \<open>
  The limit derived from the table for an elapsed day, capped at the target; there is
  none before day 1, where the table has no entry.
\<close>

definition capped_table_limit :: "int \<Rightarrow> int \<Rightarrow> int option" where
  "capped_table_limit day target = map_option (\<lambda>l. min l target) (table_limit day)"

section \<open>The stores the handlers work on\<close>

datatype CampaignStatus = Draft | Scheduled | Active | Paused | Completed | Cancelled

datatype CampaignLeadStatus =
  Pending | Queued | Sent | Delivered | Opened | Clicked | Replied | Bounced | Failed | Skipped

text \<open>
  A row of \<^verbatim>\<open>campaigns\<close> with its joined template (\<^verbatim>\<open>template_id\<close> is a foreign key
  that is not null). The two bounds of the send window are \<^verbatim>\<open>TIME\<close> columns, read as
  \<^verbatim>\<open>HH:MM:SS\<close>: the triple holds the numbers \<^verbatim>\<open>split(":").map(Number)\<close> makes of
  the text, hour, minute and second. Timestamps are milliseconds since the epoch. Numbers
  have the type the interfaces of the source give them (\<^verbatim>\<open>number\<close>, never null).
\<close>

record Campaign =
  c_id :: string
  c_template :: Template
  from_name :: string
  from_email :: string
  reply_to :: "string option"
  c_status :: CampaignStatus
  completed_at :: "int option"
  daily_limit :: int
  send_window_start :: "int \<times> int \<times> int"
  send_window_end :: "int \<times> int \<times> int"
  send_days :: "int list"
  delay_between_sends :: int
  sent_count :: int
  delivered_count :: int
  c_opened_count :: int
  c_clicked_count :: int
  bounced_count :: int
  unsubscribed_count :: int

record CampaignLead =
  cl_id :: string
  campaign_id :: string
  cl_lead_id :: string
  cl_status :: CampaignLeadStatus
  queued_at :: "int option"
  sent_at :: "int option"
  delivered_at :: "int option"
  opened_at :: "int option"
  opened_count :: int
  clicked_at :: "int option"
  clicked_count :: int
  error_message :: "string option"
  retry_count :: int
  resend_email_id :: "string option"
  personalized_subject :: "string option"
  personalized_body :: "string option"

record EmailEvent =
  e_campaign_lead_id :: "string option"
  e_resend_email_id :: "string option"
  event_type :: string
  clicked_url :: "string option"

record Unsubscribe =
  u_email :: string
  u_lead_id :: string
  u_campaign_id :: string
  u_token :: string
  u_source :: string

text \<open>The payload of a send job, and a message published to the queue.\<close>

record EmailSendJob =
  job_campaignLeadId :: string
  job_campaignId :: string
  job_leadId :: string
  job_to :: string
  job_from :: string
  job_fromName :: string
  job_replyTo :: "string option"
  job_subject :: string
  job_html :: string
  job_text :: "string option"

record Published =
  pub_url :: string
  pub_body :: EmailSendJob
  pub_retries :: nat
  pub_delay :: "int option"

text \<open>A request to the email provider.\<close>

record EmailRequest =
  m_to :: string
  m_from :: string
  m_fromName :: string
  m_replyTo :: "string option"
  m_subject :: string
  m_html :: string
  m_text :: "string option"
  m_campaignId :: string

text \<open>
  Everything a handler can change: the tables of the database, in row order; the two
  counters of the rate limiter in the key-value cache (\<open>None\<close>: the key is absent); the
  messages published to the queue and the requests made to the email provider, latest
  last.
\<close>

record world =
  campaigns :: "Campaign list"
  campaign_leads :: "CampaignLead list"
  leads :: "Lead list"
  email_events :: "EmailEvent list"
  unsubscribes :: "Unsubscribe list"
  domain_warmup :: "DomainWarmup list"
  email_daily :: "int option"
  email_hourly :: "int option"
  published :: "Published list"
  provider_requests :: "EmailRequest list"

text \<open>What the email provider answers, or that the call throws.\<close>

datatype provider_result = ProviderError string | ProviderData "string option" | ProviderThrows

text \<open>
  What a handler reads and cannot change: the process environment, the clock, and the
  behaviour of the services and of the runtime, none of which is code of this repository.
  \<^item> \<open>NODE_ENV\<close>, \<open>APP_URL\<close> (\<^verbatim>\<open>NEXT_PUBLIC_APP_URL\<close>), \<open>RESEND_WEBHOOK_SECRET\<close>:
    environment variables, \<open>None\<close> when not set.
  \<^item> \<open>clock_now\<close>: the time of \<^verbatim>\<open>new Date()\<close> in milliseconds, with its local \<open>clock_hours\<close>,
    \<open>clock_minutes\<close>, \<open>clock_seconds\<close> and \<open>clock_weekday\<close> (\<^verbatim>\<open>getDay()\<close>, 0 is Sunday). One
    value serves a whole invocation.
  \<^item> \<open>publish_throws\<close>: whether the queue client rejects a message (\<^verbatim>\<open>publishJSON\<close>
    throws).
  \<^item> \<open>sendEmail\<close>: the answer of the provider client to a request.
  \<^item> \<open>new_token\<close>: the value of \<^verbatim>\<open>nanoid(32)\<close> or \<^verbatim>\<open>crypto.randomUUID()\<close>.
  \<^item> \<open>hmac_sha256_hex\<close>: the keyed digest, secret first.
  \<^item> \<open>processEmailForSending\<close>: the footer, pixel and link rewriting of the template
    engine, arguments as in the source; the properties below hold whatever text it
    returns.
  \<^item> \<open>inherited_props\<close>: the properties every object literal inherits, see \<open>buildVariables\<close>.
  \<^item> \<open>named_args\<close>: how the database service binds the arguments of a remote procedure
    call. \<open>True\<close>: by name, so that a call whose argument names are not the parameter
    names of the function finds no function and changes nothing (what the service
    documents). \<open>False\<close>: by position, whatever the names.
\<close>

record env =
  NODE_ENV :: string
  APP_URL :: "string option"
  RESEND_WEBHOOK_SECRET :: "string option"
  clock_now :: int
  clock_hours :: int
  clock_minutes :: int
  clock_seconds :: int
  clock_weekday :: int
  publish_throws :: "Published \<Rightarrow> bool"
  sendEmail :: "EmailRequest \<Rightarrow> provider_result"
  new_token :: string
  hmac_sha256_hex :: "string \<Rightarrow> string \<Rightarrow> string"
  processEmailForSending :: "string \<Rightarrow> string \<Rightarrow> string \<Rightarrow> string \<Rightarrow> string"
  inherited_props :: TemplateVariables
  named_args :: bool

text \<open>A handler returns a value or throws; what it has written by then stays written.\<close>

datatype 'a outcome = Return 'a | Throw

text \<open>The responses of the handlers: a status code and what the body says.\<close>

datatype response_body =
    Json_error string
  | Json_processed nat int
  | Json_unsubscribed
  | Json_send_failed string
  | Json_sent "string option"
  | Json_received
  | Transparent_gif

record response =
  res_status :: nat
  res_body :: response_body

subsection \<open>Queries\<close>

text \<open>\<^verbatim>\<open>.single()\<close>: the row when the query selects exactly one, otherwise no data.\<close>

definition single :: "'a list \<Rightarrow> 'a option" where
  "single rows = (case rows of [r] \<Rightarrow> Some r | _ \<Rightarrow> None)"

text \<open>\<^verbatim>\<open>.update(fields).eq("id", id)\<close> on the campaign-lead table.\<close>

definition update_campaign_lead :: "string \<Rightarrow> (CampaignLead \<Rightarrow> CampaignLead) \<Rightarrow> world \<Rightarrow> world" where
  "update_campaign_lead rid f w =
     w\<lparr>campaign_leads := map (\<lambda>r. if cl_id r = rid then f r else r) (campaign_leads w)\<rparr>"

definition update_campaign :: "string \<Rightarrow> (Campaign \<Rightarrow> Campaign) \<Rightarrow> world \<Rightarrow> world" where
  "update_campaign rid f w =
     w\<lparr>campaigns := map (\<lambda>c. if c_id c = rid then f c else c) (campaigns w)\<rparr>"

definition update_lead :: "string \<Rightarrow> (Lead \<Rightarrow> Lead) \<Rightarrow> world \<Rightarrow> world" where
  "update_lead rid f w =
     w\<lparr>leads := map (\<lambda>l. if lead_id l = rid then f l else l) (leads w)\<rparr>"

definition insert_event :: "EmailEvent \<Rightarrow> world \<Rightarrow> world" where
  "insert_event e w = w\<lparr>email_events := email_events w @ [e]\<rparr>"

text \<open>
  An insert into \<^verbatim>\<open>unsubscribes\<close>, whose email column is unique: a row for an email
  that has one already is not inserted. Both upserts of the handlers come to this: the one
  with \<^verbatim>\<open>onConflict: "email", ignoreDuplicates: true\<close> skips the row, the one without
  options fails on the unique constraint, and neither throws.
\<close>

definition insert_unsubscribe :: "Unsubscribe \<Rightarrow> world \<Rightarrow> world" where
  "insert_unsubscribe u w =
     (if u_email u \<in> set (map u_email (unsubscribes w)) then w
      else w\<lparr>unsubscribes := unsubscribes w @ [u]\<rparr>)"

subsection \<open>Remote procedures of the database (the SQL functions of the schema)\<close>

text \<open>
  \<^verbatim>\<open>increment_campaign_stat(p_campaign_id, p_stat_field)\<close> adds one to the column of the
  campaign that \<^verbatim>\<open>p_stat_field\<close> names, whichever it is: the statement is built from the
  name. The integer columns the record has are the six counters, the daily limit and the
  delay between sends; a name that is none of these leaves the record as it is.
\<close>

definition bump_stat :: "string \<Rightarrow> Campaign \<Rightarrow> Campaign" where
  "bump_stat field c =
     (if field = ''sent_count'' then c\<lparr>sent_count := sent_count c + 1\<rparr>
      else if field = ''delivered_count'' then c\<lparr>delivered_count := delivered_count c + 1\<rparr>
      else if field = ''opened_count'' then c\<lparr>c_opened_count := c_opened_count c + 1\<rparr>
      else if field = ''clicked_count'' then c\<lparr>c_clicked_count := c_clicked_count c + 1\<rparr>
      else if field = ''bounced_count'' then c\<lparr>bounced_count := bounced_count c + 1\<rparr>
      else if field = ''unsubscribed_count'' then c\<lparr>unsubscribed_count := unsubscribed_count c + 1\<rparr>
      else if field = ''daily_limit'' then c\<lparr>daily_limit := daily_limit c + 1\<rparr>
      else if field = ''delay_between_sends'' then c\<lparr>delay_between_sends := delay_between_sends c + 1\<rparr>
      else c)"

definition increment_campaign_stat :: "string \<Rightarrow> string \<Rightarrow> world \<Rightarrow> world" where
  "increment_campaign_stat p_campaign_id p_stat_field w =
     update_campaign p_campaign_id (bump_stat p_stat_field) w"

definition increment_opened_count :: "string \<Rightarrow> world \<Rightarrow> world" where
  "increment_opened_count p_campaign_lead_id w =
     update_campaign_lead p_campaign_lead_id (\<lambda>r. r\<lparr>opened_count := opened_count r + 1\<rparr>) w"

definition increment_clicked_count :: "string \<Rightarrow> world \<Rightarrow> world" where
  "increment_clicked_count p_campaign_lead_id w =
     update_campaign_lead p_campaign_lead_id (\<lambda>r. r\<lparr>clicked_count := clicked_count r + 1\<rparr>) w"

text \<open>
  Binding the arguments of a call, given as pairs of name and value, to the parameters of
  the function: the values in parameter order, or \<open>None\<close> when no function takes these
  arguments.
\<close>

definition bind_args :: "bool \<Rightarrow> string list \<Rightarrow> (string \<times> string) list \<Rightarrow> string list option" where
  "bind_args by_name params args =
     (if by_name then
        (if set (map fst args) = set params then those (map (map_of args) params) else None)
      else if length args = length params then Some (map snd args) else None)"

text \<open>
  \<^verbatim>\<open>supabaseAdmin.rpc(name, args)\<close>. A call that finds no function gives an error object
  the handlers do not look at, and changes nothing.
\<close>

definition rpc :: "env \<Rightarrow> string \<Rightarrow> (string \<times> string) list \<Rightarrow> world \<Rightarrow> world" where
  "rpc e name args w =
     (if name = ''increment_campaign_stat'' then
        (case bind_args (named_args e) [''p_campaign_id'', ''p_stat_field''] args of
           Some [cid, field] \<Rightarrow> increment_campaign_stat cid field w
         | _ \<Rightarrow> w)
      else if name = ''increment_opened_count'' then
        (case bind_args (named_args e) [''p_campaign_lead_id''] args of
           Some [lid] \<Rightarrow> increment_opened_count lid w
         | _ \<Rightarrow> w)
      else if name = ''increment_clicked_count'' then
        (case bind_args (named_args e) [''p_campaign_lead_id''] args of
           Some [lid] \<Rightarrow> increment_clicked_count lid w
         | _ \<Rightarrow> w)
      else w)"

section \<open>Tracking pixel and provider webhook\<close>

text \<open>\<^verbatim>\<open>x || d\<close> on a number: \<open>d\<close> when \<open>x\<close> is zero.\<close>

definition num_or :: "int \<Rightarrow> int \<Rightarrow> int" where
  "num_or x d = (if x = 0 then d else x)"

definition gif_response :: response where
  "gif_response = \<lparr>res_status = 200, res_body = Transparent_gif\<rparr>"

text \<open>
  The open-tracking endpoint, \<^verbatim>\<open>GET\<close> with the id of a campaign lead. No call in its
  body throws, so the handler of its \<^verbatim>\<open>catch\<close> is never entered; the answer is the
  image in every case.
\<close>

definition track_open :: "env \<Rightarrow> string \<Rightarrow> world \<Rightarrow> response \<times> world" where
  "track_open e campaignLeadId w =
     (case single (filter (\<lambda>r. cl_id r = campaignLeadId) (campaign_leads w)) of
        None \<Rightarrow> (gif_response, w)
      | Some campaignLead \<Rightarrow>
          (let w1 = insert_event
                 \<lparr>e_campaign_lead_id = Some campaignLeadId, e_resend_email_id = None,
                  event_type = ''opened'', clicked_url = None\<rparr> w;
               first_open = (opened_at campaignLead = None);
               w2 = update_campaign_lead campaignLeadId
                 (\<lambda>r. if first_open
                      then r\<lparr>opened_count := num_or (opened_count campaignLead) 0 + 1,
                             opened_at := Some (clock_now e), cl_status := Opened\<rparr>
                      else r\<lparr>opened_count := num_or (opened_count campaignLead) 0 + 1\<rparr>) w1;
               w3 = (if first_open
                     then rpc e ''increment_campaign_stat''
                            [(''p_campaign_id'', campaign_id campaignLead),
                             (''p_stat_field'', ''opened_count'')] w2
                     else w2)
           in (gif_response, w3)))"

subsection \<open>The webhook of the email provider\<close>

datatype ResendEventType =
    Email_sent | Email_delivered | Email_delivery_delayed | Email_complained
  | Email_bounced | Email_opened | Email_clicked

record ResendWebhookPayload =
  ev_type :: ResendEventType
  email_id :: string
  ev_to :: "string list"
  click_link :: "string option"
  bounce_message :: "string option"

text \<open>
  A webhook request: the raw text, the signature header, and what \<^verbatim>\<open>JSON.parse\<close> makes
  of the text (\<open>None\<close>: it throws).
\<close>

record WebhookRequest =
  raw_payload :: string
  svix_signature :: "string option"
  parsed_payload :: "ResendWebhookPayload option"

text \<open>\<^verbatim>\<open>crypto.timingSafeEqual\<close> throws when the two buffers differ in length.\<close>

definition verifyWebhookSignature :: "env \<Rightarrow> string \<Rightarrow> string \<Rightarrow> string \<Rightarrow> bool outcome" where
  "verifyWebhookSignature e payload signature secret =
     (let expectedSignature = hmac_sha256_hex e secret payload
      in if length signature \<noteq> length expectedSignature then Throw
         else Return (signature = expectedSignature))"

definition mapEventType :: "ResendEventType \<Rightarrow> string" where
  "mapEventType t =
     (case t of
        Email_sent \<Rightarrow> ''sent''
      | Email_delivered \<Rightarrow> ''delivered''
      | Email_delivery_delayed \<Rightarrow> ''delayed''
      | Email_complained \<Rightarrow> ''complained''
      | Email_bounced \<Rightarrow> ''bounced''
      | Email_opened \<Rightarrow> ''opened''
      | Email_clicked \<Rightarrow> ''clicked'')"

definition incrementField :: "ResendEventType \<Rightarrow> string option" where
  "incrementField t =
     (case t of
        Email_delivered \<Rightarrow> Some ''delivered_count''
      | Email_opened \<Rightarrow> Some ''opened_count''
      | Email_clicked \<Rightarrow> Some ''clicked_count''
      | Email_bounced \<Rightarrow> Some ''bounced_count''
      | Email_complained \<Rightarrow> Some ''unsubscribed_count''
      | _ \<Rightarrow> None)"

text \<open>
  \<open>updateCampaignStats\<close> is called for every event of a known campaign lead. It names the
  arguments of the call \<^verbatim>\<open>campaign_id\<close> and \<^verbatim>\<open>stat_field\<close>.
\<close>

definition updateCampaignStats :: "env \<Rightarrow> string \<Rightarrow> ResendEventType \<Rightarrow> world \<Rightarrow> world" where
  "updateCampaignStats e campaignId eventType w =
     (case incrementField eventType of
        Some field \<Rightarrow>
          rpc e ''increment_campaign_stat'' [(''campaign_id'', campaignId), (''stat_field'', field)] w
      | None \<Rightarrow> w)"

text \<open>
  The \<^verbatim>\<open>switch\<close> on the event type followed by the update of the campaign lead. The row
  was looked up by message id only; whether it was opened before is not read.
\<close>

definition apply_event :: "env \<Rightarrow> ResendWebhookPayload \<Rightarrow> CampaignLead \<Rightarrow> world \<Rightarrow> world" where
  "apply_event e event campaignLead w =
     (case ev_type event of
        Email_delivered \<Rightarrow>
          update_campaign_lead (cl_id campaignLead)
            (\<lambda>r. r\<lparr>cl_status := Delivered, delivered_at := Some (clock_now e)\<rparr>) w
      | Email_opened \<Rightarrow>
          update_campaign_lead (cl_id campaignLead)
            (\<lambda>r. r\<lparr>cl_status := Opened, opened_at := Some (clock_now e)\<rparr>)
            (rpc e ''increment_opened_count'' [(''campaign_lead_id'', cl_id campaignLead)] w)
      | Email_clicked \<Rightarrow>
          update_campaign_lead (cl_id campaignLead)
            (\<lambda>r. r\<lparr>cl_status := Clicked, clicked_at := Some (clock_now e)\<rparr>)
            (rpc e ''increment_clicked_count'' [(''campaign_lead_id'', cl_id campaignLead)] w)
      | Email_bounced \<Rightarrow>
          update_campaign_lead (cl_id campaignLead)
            (\<lambda>r. r\<lparr>cl_status := Bounced,
                   error_message := Some (or_else (bounce_message event) ''Email bounced'')\<rparr>)
            (update_lead (cl_lead_id campaignLead) (\<lambda>l. l\<lparr>lead_status := ''bounced''\<rparr>) w)
      | Email_complained \<Rightarrow>
          update_lead (cl_lead_id campaignLead) (\<lambda>l. l\<lparr>lead_status := ''unsubscribed''\<rparr>)
            (case ev_to event of
               [] \<Rightarrow> w
             | t # _ \<Rightarrow>
                 insert_unsubscribe
                   \<lparr>u_email = t, u_lead_id = cl_lead_id campaignLead,
                    u_campaign_id = campaign_id campaignLead, u_token = new_token e,
                    u_source = ''complaint''\<rparr> w)
      | _ \<Rightarrow> w)"

definition resend_webhook :: "env \<Rightarrow> WebhookRequest \<Rightarrow> world \<Rightarrow> response \<times> world" where
  "resend_webhook e req w =
     (let signature = or_else (svix_signature req) [];
          failed = \<lparr>res_status = 500, res_body = Json_error ''Webhook processing failed''\<rparr>;
          verified =
            (case RESEND_WEBHOOK_SECRET e of
               Some webhookSecret \<Rightarrow>
                 if webhookSecret \<noteq> [] \<and> NODE_ENV e = ''production''
                 then verifyWebhookSignature e (raw_payload req) signature webhookSecret
                 else Return True
             | None \<Rightarrow> Return True)
      in case verified of
           Throw \<Rightarrow> (failed, w)
         | Return False \<Rightarrow> (\<lparr>res_status = 401, res_body = Json_error ''Invalid signature''\<rparr>, w)
         | Return True \<Rightarrow>
             (case parsed_payload req of
                None \<Rightarrow> (failed, w)
              | Some event \<Rightarrow>
                  (let campaignLead =
                         single (filter (\<lambda>r. resend_email_id r = Some (email_id event))
                                        (campaign_leads w));
                       w1 = insert_event
                         \<lparr>e_campaign_lead_id = map_option cl_id campaignLead,
                          e_resend_email_id = Some (email_id event),
                          event_type = mapEventType (ev_type event),
                          clicked_url = truthy (click_link event)\<rparr> w
                   in case campaignLead of
                        None \<Rightarrow> (\<lparr>res_status = 200, res_body = Json_received\<rparr>, w1)
                      | Some cl \<Rightarrow>
                          (\<lparr>res_status = 200, res_body = Json_received\<rparr>,
                           updateCampaignStats e (campaign_id cl) (ev_type event)
                             (apply_event e event cl w1)))))"

section \<open>The queue callbacks\<close>

text \<open>
  A callback request: the \<^verbatim>\<open>upstash-signature\<close> header (\<open>None\<close>: absent) and what
  \<^verbatim>\<open>request.json()\<close> gives (\<open>None\<close>: it throws).
\<close>

record 'a CallbackRequest =
  upstash_signature :: "string option"
  json_body :: "'a option"

definition unauthorized :: response where
  "unauthorized = \<lparr>res_status = 401, res_body = Json_error ''Unauthorized''\<rparr>"

definition internal_error :: response where
  "internal_error = \<lparr>res_status = 500, res_body = Json_error ''Internal server error''\<rparr>"

text \<open>\<open>verifySignature\<close> of the queue client. Neither callback calls it.\<close>

definition verifySignature :: "env \<Rightarrow> string \<Rightarrow> bool" where
  "verifySignature e signature = (if NODE_ENV e = ''development'' then True else signature \<noteq> [])"

subsection \<open>The rate limiter (src/lib/redis/client.ts)\<close>

text \<open>\<^verbatim>\<open>daily || 0\<close> on a counter that may be absent.\<close>

definition count_or_zero :: "int option \<Rightarrow> int" where
  "count_or_zero x = (case x of Some n \<Rightarrow> num_or n 0 | None \<Rightarrow> 0)"

definition canSendEmail :: "world \<Rightarrow> int \<Rightarrow> bool" where
  "canSendEmail w dailyLimit =
     (let hourlyLimit = \<lceil>(of_int dailyLimit :: rat) / 8\<rceil>
      in count_or_zero (email_daily w) < dailyLimit \<and> count_or_zero (email_hourly w) < hourlyLimit)"

definition incrementEmailCount :: "world \<Rightarrow> world" where
  "incrementEmailCount w =
     w\<lparr>email_daily := Some (case email_daily w of Some n \<Rightarrow> n + 1 | None \<Rightarrow> 1),
       email_hourly := Some (case email_hourly w of Some n \<Rightarrow> n + 1 | None \<Rightarrow> 1)\<rparr>"

subsection \<open>The send job\<close>

definition app_url :: "env \<Rightarrow> string" where
  "app_url e = or_else (APP_URL e) ''http://localhost:3000''"

text \<open>
  The handler behind \<^verbatim>\<open>/api/jobs/email-send\<close>. The request to the provider is recorded
  when \<open>sendEmail\<close> is called, whatever the provider answers.
\<close>

definition email_send :: "env \<Rightarrow> EmailSendJob CallbackRequest \<Rightarrow> world \<Rightarrow> response \<times> world" where
  "email_send e req w =
     (let signature = or_else (upstash_signature req) []
      in if NODE_ENV e = ''production'' \<and> signature = [] then (unauthorized, w)
         else
           (case json_body req of
              None \<Rightarrow> (internal_error, w)
            | Some job \<Rightarrow>
                (case single (filter (\<lambda>u. u_email u = job_to job) (unsubscribes w)) of
                   Some unsubscribed \<Rightarrow>
                     (\<lparr>res_status = 200, res_body = Json_unsubscribed\<rparr>,
                      update_campaign_lead (job_campaignLeadId job)
                        (\<lambda>r. r\<lparr>cl_status := Skipped,
                               error_message := Some ''Email is unsubscribed''\<rparr>) w)
                 | None \<Rightarrow>
                     (let unsubscribeToken = new_token e;
                          appUrl = app_url e;
                          processedHtml = processEmailForSending e (job_html job)
                                            (job_campaignLeadId job) unsubscribeToken appUrl;
                          request = \<lparr>m_to = job_to job, m_from = job_from job,
                                     m_fromName = job_fromName job, m_replyTo = job_replyTo job,
                                     m_subject = job_subject job, m_html = processedHtml,
                                     m_text = job_text job, m_campaignId = job_campaignId job\<rparr>;
                          w1 = w\<lparr>provider_requests := provider_requests w @ [request]\<rparr>
                      in case sendEmail e request of
                           ProviderThrows \<Rightarrow> (internal_error, w1)
                         | ProviderError message \<Rightarrow>
                             (\<lparr>res_status = 500, res_body = Json_send_failed message\<rparr>,
                              update_campaign_lead (job_campaignLeadId job)
                                (\<lambda>r. r\<lparr>cl_status := Failed, error_message := Some message,
                                       retry_count := 1\<rparr>) w1)
                         | ProviderData emailId \<Rightarrow>
                             (let w2 = update_campaign_lead (job_campaignLeadId job)
                                    (\<lambda>r. r\<lparr>cl_status := Sent, sent_at := Some (clock_now e),
                                           resend_email_id :=
                                             (case emailId of Some i \<Rightarrow> Some i
                                              | None \<Rightarrow> resend_email_id r)\<rparr>) w1;
                                  w3 = rpc e ''increment_campaign_stat''
                                    [(''p_campaign_id'', job_campaignId job),
                                     (''p_stat_field'', ''sent_count'')] w2;
                                  w4 = insert_unsubscribe
                                    \<lparr>u_email = job_to job, u_lead_id = job_leadId job,
                                     u_campaign_id = job_campaignId job,
                                     u_token = unsubscribeToken, u_source = ''link''\<rparr> w3;
                                  w5 = incrementEmailCount w4
                              in (\<lparr>res_status = 200, res_body = Json_sent emailId\<rparr>, w5))))))"

subsection \<open>The campaign dispatch pipeline (src/app/api/jobs/campaign-process/route.ts)\<close>

text \<open>
  \<open>isWithinSendWindow\<close> reads the hours and the minutes of the clock, and takes the first
  two numbers of each bound; the seconds of the clock and of the bounds are not read.
\<close>

definition isWithinSendWindow :: "env \<Rightarrow> int \<times> int \<times> int \<Rightarrow> int \<times> int \<times> int \<Rightarrow> bool" where
  "isWithinSendWindow e startTime endTime =
     (let currentTime = clock_hours e * 60 + clock_minutes e;
          (startHour, startMin, startSec) = startTime;
          (endHour, endMin, endSec) = endTime;
          startMinutes = startHour * 60 + startMin;
          endMinutes = endHour * 60 + endMin
      in currentTime \<ge> startMinutes \<and> currentTime \<le> endMinutes)"

text \<open>\<^verbatim>\<open>new Date().getDay() || 7\<close>: Sunday is 7.\<close>

definition today :: "env \<Rightarrow> int" where
  "today e = num_or (clock_weekday e) 7"

text \<open>
  \<open>queueEmailSend\<close> of the queue client: the delay is set on the message only when it is
  not zero; a message without delay is delivered at once. A message the queue takes is
  appended to the published ones.
\<close>

definition publish_options :: "env \<Rightarrow> EmailSendJob \<Rightarrow> int option \<Rightarrow> Published" where
  "publish_options e job delay =
     \<lparr>pub_url = app_url e @ ''/api/jobs/email-send'', pub_body = job, pub_retries = 3,
      pub_delay = (case delay of Some d \<Rightarrow> if d = 0 then None else Some d | None \<Rightarrow> None)\<rparr>"

definition queueEmailSend :: "env \<Rightarrow> EmailSendJob \<Rightarrow> int option \<Rightarrow> world \<Rightarrow> unit outcome \<times> world" where
  "queueEmailSend e job delay w =
     (let publishOptions = publish_options e job delay
      in if publish_throws e publishOptions then (Throw, w)
         else (Return (), w\<lparr>published := published w @ [publishOptions]\<rparr>))"

text \<open>The delay a published message is delivered after, in seconds.\<close>

definition delay_of :: "Published \<Rightarrow> int" where
  "delay_of m = (case pub_delay m of Some d \<Rightarrow> d | None \<Rightarrow> 0)"

text \<open>The payload built for one recipient from the personalized template.\<close>

definition build_job :: "env \<Rightarrow> Campaign \<Rightarrow> CampaignLead \<Rightarrow> Lead \<Rightarrow> EmailSendJob" where
  "build_job e campaign campaignLead lead =
     (let personalized = personalizeTemplate (inherited_props e) (c_template campaign) lead
      in \<lparr>job_campaignLeadId = cl_id campaignLead, job_campaignId = c_id campaign,
          job_leadId = lead_id lead, job_to = email lead, job_from = from_email campaign,
          job_fromName = from_name campaign,
          job_replyTo = truthy (reply_to campaign),
          job_subject = p_subject personalized, job_html = p_html personalized,
          job_text = p_text personalized\<rparr>)"

text \<open>The fields written to a recipient once its message is published.\<close>

definition mark_queued :: "env \<Rightarrow> Campaign \<Rightarrow> Lead \<Rightarrow> CampaignLead \<Rightarrow> CampaignLead" where
  "mark_queued e campaign lead r =
     (let personalized = personalizeTemplate (inherited_props e) (c_template campaign) lead
      in r\<lparr>cl_status := Queued, queued_at := Some (clock_now e),
           personalized_subject := Some (p_subject personalized),
           personalized_body := Some (p_html personalized)\<rparr>)"

text \<open>
  The loop over the fetched recipients, each with its joined lead: \<open>i\<close> is the loop index
  and \<open>queued\<close> the counter. There is no \<^verbatim>\<open>try\<close> in the loop: when \<open>queueEmailSend\<close>
  throws, the loop is left, with the recipient not marked and the rest not visited.
\<close>

fun queue_loop ::
  "env \<Rightarrow> Campaign \<Rightarrow> int \<Rightarrow> nat \<Rightarrow> (CampaignLead \<times> Lead option) list \<Rightarrow> int \<Rightarrow> world
     \<Rightarrow> int outcome \<times> world" where
  "queue_loop e campaign delayBetween i [] queued w = (Return queued, w)"
| "queue_loop e campaign delayBetween i ((campaignLead, None) # rest) queued w =
     queue_loop e campaign delayBetween (i + 1) rest queued w"
| "queue_loop e campaign delayBetween i ((campaignLead, Some lead) # rest) queued w =
     (let job = build_job e campaign campaignLead lead;
          delay = int i * delayBetween
      in case queueEmailSend e job (Some delay) w of
           (Throw, w1) \<Rightarrow> (Throw, w1)
         | (Return u, w1) \<Rightarrow>
             queue_loop e campaign delayBetween (i + 1) rest (queued + 1)
               (update_campaign_lead (cl_id campaignLead) (mark_queued e campaign lead) w1))"

text \<open>
  The pending recipients of a campaign, at most \<open>limit\<close> of them, in table order, each
  with the lead its \<^verbatim>\<open>lead_id\<close> refers to.
\<close>

definition pending_leads :: "world \<Rightarrow> string \<Rightarrow> int \<Rightarrow> (CampaignLead \<times> Lead option) list" where
  "pending_leads w campaignId limit =
     map (\<lambda>r. (r, find (\<lambda>l. lead_id l = cl_lead_id r) (leads w)))
       (take (nat limit)
          (filter (\<lambda>r. campaign_id r = campaignId \<and> cl_status r = Pending) (campaign_leads w)))"

text \<open>
  \<open>processCampaign\<close> from the rate-limit check on, for an effective daily limit. The limit
  is the argument of the check and the limit of the query for pending recipients.
\<close>

definition dispatch :: "env \<Rightarrow> Campaign \<Rightarrow> int \<Rightarrow> world \<Rightarrow> int outcome \<times> world" where
  "dispatch e campaign effectiveLimit w =
     (if \<not> canSendEmail w effectiveLimit then (Return 0, w)
      else
        (let pendingLeads = pending_leads w (c_id campaign) effectiveLimit
         in if pendingLeads = [] then
              (let remaining = length (filter (\<lambda>r. campaign_id r = c_id campaign \<and> cl_status r = Pending)
                                              (campaign_leads w))
               in if remaining = 0
                  then (Return 0,
                        update_campaign (c_id campaign)
                          (\<lambda>c. c\<lparr>c_status := Completed, completed_at := Some (clock_now e)\<rparr>) w)
                  else (Return 0, w))
            else
              (let delayBetween = num_or (delay_between_sends campaign) 60
               in queue_loop e campaign delayBetween 0 pendingLeads 0 w)))"

text \<open>
  The effective daily limit: \<^verbatim>\<open>Math.min(campaign.daily_limit, warmup?.current_daily_limit || 50)\<close>,
  where \<^verbatim>\<open>warmup\<close> is the result of \<^verbatim>\<open>.eq("status", "active").single()\<close> on the
  warm-up table.
\<close>

definition effectiveLimit :: "Campaign \<Rightarrow> world \<Rightarrow> int" where
  "effectiveLimit campaign w =
     (let warmup = single (filter (\<lambda>d. w_status d = WarmupActive) (domain_warmup w))
      in min (daily_limit campaign)
             (case warmup of Some d \<Rightarrow> num_or (current_daily_limit d) 50 | None \<Rightarrow> 50))"

definition processCampaign :: "env \<Rightarrow> string \<Rightarrow> world \<Rightarrow> int outcome \<times> world" where
  "processCampaign e campaignId w =
     (case single (filter (\<lambda>c. c_id c = campaignId) (campaigns w)) of
        None \<Rightarrow> (Return 0, w)
      | Some campaign \<Rightarrow>
          if c_status campaign \<noteq> Active then (Return 0, w)
          else if \<not> isWithinSendWindow e (send_window_start campaign) (send_window_end campaign)
            then (Return 0, w)
          else if today e \<notin> set (send_days campaign) then (Return 0, w)
          else dispatch e campaign (effectiveLimit campaign w) w)"

definition getActiveCampaignIds :: "world \<Rightarrow> string list" where
  "getActiveCampaignIds w = map c_id (filter (\<lambda>c. c_status c = Active) (campaigns w))"

text \<open>The loop of the handler over the campaigns; an exception of \<open>processCampaign\<close> ends it.\<close>

fun process_all :: "env \<Rightarrow> string list \<Rightarrow> int \<Rightarrow> world \<Rightarrow> int outcome \<times> world" where
  "process_all e [] totalQueued w = (Return totalQueued, w)"
| "process_all e (cId # rest) totalQueued w =
     (case processCampaign e cId w of
        (Throw, w1) \<Rightarrow> (Throw, w1)
      | (Return queued, w1) \<Rightarrow> process_all e rest (totalQueued + queued) w1)"

text \<open>
  The handler behind \<^verbatim>\<open>/api/jobs/campaign-process\<close>. The body carries
  \<^verbatim>\<open>campaignId\<close> or not; without it (or with an empty one) all active campaigns are
  processed.
\<close>

definition campaign_process ::
  "env \<Rightarrow> (string option) CallbackRequest \<Rightarrow> world \<Rightarrow> response \<times> world" where
  "campaign_process e req w =
     (let signature = or_else (upstash_signature req) []
      in if NODE_ENV e = ''production'' \<and> signature = [] then (unauthorized, w)
         else
           (case json_body req of
              None \<Rightarrow> (internal_error, w)
            | Some campaignId \<Rightarrow>
                (let campaignIds =
                       (case campaignId of
                          Some c \<Rightarrow> if c = [] then getActiveCampaignIds w else [c]
                        | None \<Rightarrow> getActiveCampaignIds w)
                 in case process_all e campaignIds 0 w of
                      (Throw, w1) \<Rightarrow> (internal_error, w1)
                    | (Return totalQueued, w1) \<Rightarrow>
                        (\<lparr>res_status = 200,
                          res_body = Json_processed (length campaignIds) totalQueued\<rparr>, w1))))"

subsection \<open>What a run of the loop leaves behind\<close>

text \<open>
  The messages the loop publishes for a list of recipients when no publication fails, and
  the marks it sets on the table for them; \<open>i\<close> is the index of the first of them.
\<close>

fun messages :: "env \<Rightarrow> Campaign \<Rightarrow> int \<Rightarrow> nat \<Rightarrow> (CampaignLead \<times> Lead option) list \<Rightarrow> Published list" where
  "messages e campaign delayBetween i [] = []"
| "messages e campaign delayBetween i ((campaignLead, None) # rest) =
     messages e campaign delayBetween (i + 1) rest"
| "messages e campaign delayBetween i ((campaignLead, Some lead) # rest) =
     publish_options e (build_job e campaign campaignLead lead) (Some (int i * delayBetween))
       # messages e campaign delayBetween (i + 1) rest"

fun marks :: "env \<Rightarrow> Campaign \<Rightarrow> (CampaignLead \<times> Lead option) list \<Rightarrow> CampaignLead list \<Rightarrow> CampaignLead list" where
  "marks e campaign [] table = table"
| "marks e campaign ((campaignLead, None) # rest) table = marks e campaign rest table"
| "marks e campaign ((campaignLead, Some lead) # rest) table =
     marks e campaign rest
       (map (\<lambda>r. if cl_id r = cl_id campaignLead then mark_queued e campaign lead r else r) table)"

text \<open>
  The staggering as the specification words it: the recipient at position \<open>j\<close> of the
  batch goes out with delay \<open>j\<close> times the delay between sends. Recipients without a lead
  are passed over and keep their position.
\<close>

definition planned :: "(CampaignLead \<times> Lead option) list \<Rightarrow> int \<Rightarrow> (string \<times> int) list" where
  "planned batch delayBetween =
     map (\<lambda>j. (cl_id (fst (batch ! j)), int j * delayBetween))
         (filter (\<lambda>j. snd (batch ! j) \<noteq> None) [0..<length batch])"

text \<open>Of a published message: the recipient it is for, and its delay.\<close>

definition recipient_and_delay :: "Published \<Rightarrow> string \<times> int" where
  "recipient_and_delay m = (job_campaignLeadId (pub_body m), delay_of m)"

text \<open>
  The message the loop builds for the recipient at position \<open>j\<close> of the batch (none when the
  recipient has no lead), whether the queue rejects it, and the position where the loop
  stops: that of the first message the queue rejects, or the length of the batch when it
  takes them all.
\<close>

definition message_at ::
  "env \<Rightarrow> Campaign \<Rightarrow> int \<Rightarrow> (CampaignLead \<times> Lead option) list \<Rightarrow> nat \<Rightarrow> Published option" where
  "message_at e campaign delayBetween batch j =
     map_option
       (\<lambda>lead. publish_options e (build_job e campaign (fst (batch ! j)) lead)
                 (Some (int j * delayBetween)))
       (snd (batch ! j))"

definition rejected ::
  "env \<Rightarrow> Campaign \<Rightarrow> int \<Rightarrow> (CampaignLead \<times> Lead option) list \<Rightarrow> nat \<Rightarrow> bool" where
  "rejected e campaign delayBetween batch j =
     (case message_at e campaign delayBetween batch j of
        Some m \<Rightarrow> publish_throws e m
      | None \<Rightarrow> False)"

definition stop_position ::
  "env \<Rightarrow> Campaign \<Rightarrow> int \<Rightarrow> (CampaignLead \<times> Lead option) list \<Rightarrow> nat" where
  "stop_position e campaign delayBetween batch =
     (case find (rejected e campaign delayBetween batch) [0..<length batch] of
        Some k \<Rightarrow> k
      | None \<Rightarrow> length batch)"

subsection \<open>The time of day as the specification words it\<close>

text \<open>
  A time of day in seconds since midnight, for the clock and for a bound of the send
  window; and the same in whole minutes, the seconds dropped.
\<close>

definition seconds_of :: "int \<times> int \<times> int \<Rightarrow> int" where
  "seconds_of t = (case t of (h, m, s) \<Rightarrow> h * 3600 + m * 60 + s)"

definition time_of_day :: "env \<Rightarrow> int" where
  "time_of_day e = seconds_of (clock_hours e, clock_minutes e, clock_seconds e)"

definition minutes_of :: "int \<times> int \<times> int \<Rightarrow> int" where
  "minutes_of t = (case t of (h, m, s) \<Rightarrow> h * 60 + m)"

definition minute_of_day :: "env \<Rightarrow> int" where
  "minute_of_day e = minutes_of (clock_hours e, clock_minutes e, clock_seconds e)"

section \<open>Concrete inputs\<close>

text \<open>
  An environment in production, on a Monday at 10:30:00, whose services accept every
  message; the flag says how the database binds the arguments of a remote procedure call.
\<close>

definition example_env :: "bool \<Rightarrow> env" where
  "example_env by_name =
     \<lparr>NODE_ENV = ''production'', APP_URL = Some ''https://app.test'',
      RESEND_WEBHOOK_SECRET = None,
      clock_now = 2000, clock_hours = 10, clock_minutes = 30, clock_seconds = 0,
      clock_weekday = 1,
      publish_throws = (\<lambda>m. False), sendEmail = (\<lambda>r. ProviderData (Some ''m1'')),
      new_token = ''token'', hmac_sha256_hex = (\<lambda>secret payload. []),
      processEmailForSending = (\<lambda>html campaignLeadId unsubscribeToken appUrl. html),
      inherited_props = Map.empty, named_args = by_name\<rparr>"

text \<open>An active campaign, Monday to Friday from 09:00:00 to 17:00:00, with its counters at zero.\<close>

definition example_campaign :: Campaign where
  "example_campaign =
     \<lparr>c_id = ''c1'',
      c_template = \<lparr>subject = ''Hi {{firstName}}'', body_html = ''<p>Hello {{firstName}}</p>'',
                    body_text = None\<rparr>,
      from_name = ''Sender'', from_email = ''sender@app.test'', reply_to = None,
      c_status = Active, completed_at = None, daily_limit = 50,
      send_window_start = (9, 0, 0), send_window_end = (17, 0, 0),
      send_days = [1, 2, 3, 4, 5],
      delay_between_sends = 60, sent_count = 0, delivered_count = 0, c_opened_count = 0,
      c_clicked_count = 0, bounced_count = 0, unsubscribed_count = 0\<rparr>"

definition example_lead :: "string \<Rightarrow> string \<Rightarrow> string \<Rightarrow> Lead" where
  "example_lead lid name address =
     \<lparr>lead_id = lid, email = address, first_name = Some name, last_name = None,
      company_name = Some ''Acme'', industry = None, city = None, state = None,
      lead_status = ''new''\<rparr>"

text \<open>A recipient of the campaign in a given status, never opened, sent as message \<open>mid\<close>.\<close>

definition example_recipient :: "string \<Rightarrow> string \<Rightarrow> CampaignLeadStatus \<Rightarrow> string option \<Rightarrow> CampaignLead" where
  "example_recipient rid lid st mid =
     \<lparr>cl_id = rid, campaign_id = ''c1'', cl_lead_id = lid, cl_status = st,
      queued_at = None, sent_at = None, delivered_at = None, opened_at = None, opened_count = 0,
      clicked_at = None, clicked_count = 0, error_message = None, retry_count = 0,
      resend_email_id = mid, personalized_subject = None, personalized_body = None\<rparr>"

definition example_world :: "CampaignLead list \<Rightarrow> world" where
  "example_world recipients =
     \<lparr>campaigns = [example_campaign], campaign_leads = recipients,
      leads = [example_lead ''l1'' ''Ana'' ''ana@acme.test'',
               example_lead ''l2'' ''Bob'' ''bob@acme.test''],
      email_events = [], unsubscribes = [], domain_warmup = [],
      email_daily = None, email_hourly = None, published = [], provider_requests = []\<rparr>"

text \<open>The provider reports that message \<open>m1\<close> was opened.\<close>

definition opened_event :: WebhookRequest where
  "opened_event =
     \<lparr>raw_payload = ''(the text of the event)'', svix_signature = None,
      parsed_payload = Some \<lparr>ev_type = Email_opened, email_id = ''m1'',
                             ev_to = [''ana@acme.test''], click_link = None,
                             bounce_message = None\<rparr>\<rparr>"

text \<open>The two counters the claim on opens is about: of the campaigns, and of the recipients.\<close>

definition opened_counts :: "world \<Rightarrow> int list \<times> int list" where
  "opened_counts w = (map c_opened_count (campaigns w), map opened_count (campaign_leads w))"

text \<open>Two pending recipients of the campaign, Ana first and Bob second.\<close>

definition two_pending :: world where
  "two_pending =
     example_world [example_recipient ''r1'' ''l1'' Pending None,
                    example_recipient ''r2'' ''l2'' Pending None]"

text \<open>The environment above with a queue that rejects the message to one address.\<close>

definition failing_env :: "string \<Rightarrow> env" where
  "failing_env address =
     (example_env True)\<lparr>publish_throws := (\<lambda>m. job_to (pub_body m) = address)\<rparr>"

text \<open>A callback with a signature header and a body.\<close>

definition callback :: "string \<Rightarrow> 'a \<Rightarrow> 'a CallbackRequest" where
  "callback signature content = \<lparr>upstash_signature = Some signature, json_body = Some content\<rparr>"

text \<open>An active warm-up row with a given current limit.\<close>

definition example_warmup :: "int \<Rightarrow> DomainWarmup" where
  "example_warmup limit =
     \<lparr>w_id = ''w1'', w_domain = ''app.test'', warmup_started_at = 0,
      current_daily_limit = limit, target_daily_limit = 1000, warmup_day = 1, total_sent = 0,
      total_delivered = 0, total_bounced = 0, is_healthy = True, w_status = WarmupActive,
      w_updated_at = 0\<rparr>"

text \<open>A send job for Ana, recipient \<open>r1\<close>; and a row that says Ana has unsubscribed.\<close>

definition example_job :: EmailSendJob where
  "example_job =
     \<lparr>job_campaignLeadId = ''r1'', job_campaignId = ''c1'', job_leadId = ''l1'',
      job_to = ''ana@acme.test'', job_from = ''sender@app.test'', job_fromName = ''Sender'',
      job_replyTo = None, job_subject = ''Hi Ana'', job_html = ''<p>Hello Ana</p>'',
      job_text = None\<rparr>"

definition ana_unsubscribed :: Unsubscribe where
  "ana_unsubscribed =
     \<lparr>u_email = ''ana@acme.test'', u_lead_id = ''l1'', u_campaign_id = ''c0'',
      u_token = ''old-token'', u_source = ''link''\<rparr>"

section \<open>Properties of the template engine\<close>













text \<open>
  A token whose identifier is not one of the eight variables of a lead is looked up among
  the inherited properties; where the runtime has one of that name, its text replaces the
  token.
\<close>

lemma buildVariables_inherited:
  "key \<notin> {''firstName'', ''lastName'', ''fullName'', ''company'', ''industry'', ''city'',
            ''state'', ''email''} \<Longrightarrow>
   buildVariables inherited lead key = inherited key"
  by (simp add: buildVariables_def map_add_def)

lemma inherited_name_is_replaced:
  assumes "inherited ''constructor'' = Some s" "s \<noteq> []"
  shows "replaceVariables ''{{constructor}}'' (buildVariables inherited lead) = s"
proof -
  have "buildVariables inherited lead ''constructor'' = Some s"
    using assms(1) by (simp add: buildVariables_inherited)
  moreover have "tokenize ''{{constructor}}'' = [Tok ''constructor'']"
    by code_simp
  ultimately show ?thesis
    using assms(2) by (simp add: replaceVariables_def replace_tokens_def)
qed

text \<open>
  C6. The claim: \<open>replaceVariables\<close> puts the value of every token whose identifier is a
  key of the map in the token's place, also when the value is the empty string. The code
  does not: the callback returns \<^verbatim>\<open>variables[key] || match\<close>, and an empty value is
  false, so the token stays in the text. \<open>buildVariables\<close> gives exactly this empty value
  to \<^verbatim>\<open>lastName\<close>, \<^verbatim>\<open>city\<close> and \<^verbatim>\<open>state\<close> of a lead without them: for the lead
  below the personalized subject still shows the token.
\<close>

theorem replaceVariables_keeps_token_of_empty_value:
  "replaceVariables ''Hi {{firstName}} {{lastName}}''
       [''firstName'' \<mapsto> ''Ana'', ''lastName'' \<mapsto> []]
     = ''Hi Ana {{lastName}}''
   \<and> p_subject (personalizeTemplate Map.empty
        \<lparr>subject = ''Hi {{firstName}} {{lastName}}'', body_html = [], body_text = None\<rparr>
        \<lparr>lead_id = ''l1'', email = ''ana@acme.test'', first_name = Some ''Ana'', last_name = None,
         company_name = None, industry = None, city = None, state = None, lead_status = ''new''\<rparr>)
     = ''Hi Ana {{lastName}}''"
  by code_simp




section \<open>Properties of the warm-up progression\<close>

lemma calculateDaysSinceStart_div:
  "calculateDaysSinceStart start now = - ((- \<bar>now - start\<bar>) div 86400000)"
proof -
  have "(of_int \<bar>now - start\<bar> :: rat) / (1000 * 60 * 60 * 24)
          = of_int \<bar>now - start\<bar> / of_int 86400000"
    by simp
  then show ?thesis
    unfolding calculateDaysSinceStart_def by (simp only: ceiling_divide_eq_div)
qed

lemma getExpectedLimit_scan_last:
  "getExpectedLimit_scan (rev tbl) day t =
     (let es = filter (\<lambda>(d, l). d \<le> day) tbl in if es = [] then 10 else min (snd (last es)) t)"
proof (induction tbl rule: rev_induct)
  case Nil
  show ?case by simp
next
  case (snoc x xs)
  obtain d l where x: "x = (d, l)" by (cases x)
  show ?case using snoc by (simp add: x Let_def)
qed

lemma unhealthy_iff: "unhealthy w \<longleftrightarrow> \<not> isHealthy w"
  by (auto simp: unhealthy_def isHealthy_def MIN_EMAILS_FOR_HEALTH_CHECK_def
      MIN_DELIVERABILITY_RATE_def MAX_BOUNCE_RATE_def Let_def field_simps)

lemma sorted_last_Max: "sorted xs \<Longrightarrow> xs \<noteq> [] \<Longrightarrow> Max (set xs) = last xs"
  for xs :: "int list"
proof (induction xs)
  case Nil
  then show ?case by simp
next
  case (Cons x xs)
  show ?case
  proof (cases "xs = []")
    case True
    then show ?thesis by simp
  next
    case False
    with Cons have "Max (set xs) = last xs" and "x \<le> last xs" by auto
    with False show ?thesis by (simp add: max_def)
  qed
qed

lemma schedule_sorted: "sorted (map fst WARMUP_SCHEDULE)"
  by (simp add: WARMUP_SCHEDULE_def)

lemma map_fst_filter: "map fst (filter (\<lambda>(d, l). P d) xs) = filter P (map fst xs)"
  by (induction xs) auto

text \<open>
  The schedule is sorted by day, so the entry with the greatest threshold reached is the
  last entry reached, which is the one the loop of \<open>getExpectedLimit\<close> finds first.
\<close>

lemma table_limit_last:
  "table_limit day =
     (let es = filter (\<lambda>(d, l). d \<le> day) WARMUP_SCHEDULE
      in if es = [] then None else Some (snd (last es)))"
proof -
  define es where "es = filter (\<lambda>(d, l). d \<le> day) WARMUP_SCHEDULE"
  have ds: "filter (\<lambda>d. d \<le> day) (map fst WARMUP_SCHEDULE) = map fst es"
    unfolding es_def by (simp add: map_fst_filter)
  show ?thesis
  proof (cases "es = []")
    case True
    then show ?thesis
      using ds by (simp add: table_limit_def greatest_threshold_def Let_def es_def [symmetric])
  next
    case False
    have d: "distinct (map fst WARMUP_SCHEDULE)"
      by (simp add: WARMUP_SCHEDULE_def)
    have "sorted (map fst es)"
      unfolding ds [symmetric] using schedule_sorted by (simp add: sorted_wrt_filter)
    then have m: "Max (set (map fst es)) = fst (last es)"
      using False sorted_last_Max [of "map fst es"] by (simp add: last_map del: set_map)
    have "last es \<in> set WARMUP_SCHEDULE"
      using False last_in_set [of es] by (auto simp: es_def)
    then have "(fst (last es), snd (last es)) \<in> set WARMUP_SCHEDULE" by simp
    then have "map_of WARMUP_SCHEDULE (fst (last es)) = Some (snd (last es))"
      using map_of_eq_Some_iff [OF d] by blast
    then show ?thesis
      using False ds m by (simp add: table_limit_def greatest_threshold_def Let_def es_def [symmetric])
  qed
qed

lemma getExpectedLimit_table:
  "getExpectedLimit day t = (case table_limit day of Some l \<Rightarrow> min l t | None \<Rightarrow> 10)"
  by (simp add: getExpectedLimit_def getExpectedLimit_scan_last table_limit_last Let_def)

lemma table_limit_day0: "day < 1 \<Longrightarrow> table_limit day = None"
  by (simp add: table_limit_last WARMUP_SCHEDULE_def)

lemma table_limit_from_day1: "1 \<le> day \<Longrightarrow> table_limit day \<noteq> None"
  by (simp add: table_limit_last WARMUP_SCHEDULE_def)

lemma update_warmup_id: "w_id (update_warmup now w row) = w_id row"
  by (simp add: update_warmup_def Let_def split: prod.splits)

text \<open>The loop over the fetched rows, on a table whose ids are distinct, row by row.\<close>

lemma fold_updates:
  "distinct (map w_id ws) \<Longrightarrow>
   fold (\<lambda>warmup tbl. map (\<lambda>row. if w_id row = w_id warmup then update_warmup now warmup row else row) tbl) ws tbl
   = map (\<lambda>row. case find (\<lambda>w. w_id w = w_id row) ws of
                   Some w \<Rightarrow> update_warmup now w row | None \<Rightarrow> row) tbl"
proof (induction ws arbitrary: tbl)
  case Nil
  show ?case by simp
next
  case (Cons w ws)
  from Cons.prems have d: "distinct (map w_id ws)" and n: "w_id w \<notin> w_id ` set ws" by auto
  have nf: "find (\<lambda>x. w_id x = w_id w) ws = None"
    unfolding find_None_iff using n by (metis imageI)
  have "map (\<lambda>row. case find (\<lambda>x. w_id x = w_id row) ws of
                     Some x \<Rightarrow> update_warmup now x row | None \<Rightarrow> row)
          (map (\<lambda>row. if w_id row = w_id w then update_warmup now w row else row) tbl)
        = map (\<lambda>row. case find (\<lambda>x. w_id x = w_id row) (w # ws) of
                     Some x \<Rightarrow> update_warmup now x row | None \<Rightarrow> row) tbl"
    by (auto simp: update_warmup_id nf)
  then show ?case
    by (simp add: Cons.IH [OF d])
qed


lemma find_filter_distinct:
  assumes "distinct (map w_id table)" "row \<in> set table"
  shows "find (\<lambda>w. w_id w = w_id row) (filter P table) = (if P row then Some row else None)"
  using assms
proof (induction table)
  case Nil
  then show ?case by simp
next
  case (Cons a table)
  show ?case
  proof (cases "row = a")
    case True
    with Cons.prems(1) have "\<forall>x\<in>set table. w_id x \<noteq> w_id a"
      by (metis distinct.simps(2) imageI list.simps(9) set_map)
    then have "find (\<lambda>w. w_id w = w_id a) (filter P table) = None"
      by (auto simp: find_None_iff)
    with True show ?thesis by simp
  next
    case False
    with Cons.prems have r: "row \<in> set table" and d: "distinct (map w_id table)" by auto
    with Cons.prems(1) have "w_id a \<noteq> w_id row"
      by (metis distinct.simps(2) imageI list.simps(9) set_map)
    with Cons.IH [OF d r] show ?thesis by simp
  qed
qed

lemma warmup_handler_rows:
  assumes "distinct (map w_id table)"
  shows "warmup_handler now table =
         map (\<lambda>row. if w_status row = WarmupActive then update_warmup now row row else row) table"
proof -
  have d: "distinct (map w_id (filter (\<lambda>w. w_status w = WarmupActive) table))"
    using assms by (simp add: distinct_map_filter)
  show ?thesis
    unfolding warmup_handler_def fold_updates [OF d]
    by (rule map_cong) (simp_all add: find_filter_distinct [OF assms])
qed

text \<open>
  The fallback of \<open>getExpectedLimit\<close> is taken only where the table has no entry, and is
  not above a limit of 10 or more: against such a limit the expected limit exceeds the
  current one exactly when the capped table limit does.
\<close>

lemma expected_exceeds_iff:
  assumes "10 \<le> current"
  shows "getExpectedLimit day target > current \<longleftrightarrow>
           (case capped_table_limit day target of Some l \<Rightarrow> l > current | None \<Rightarrow> False)"
    and "getExpectedLimit day target > current \<Longrightarrow>
           capped_table_limit day target = Some (getExpectedLimit day target)"
  using assms
  by (auto simp: getExpectedLimit_table capped_table_limit_def split: option.splits)

lemma update_warmup_decision:
  assumes "w_status w = WarmupActive" and "10 \<le> current_daily_limit w"
  shows "update_warmup now w w =
     w\<lparr> warmup_day := calculateDaysSinceStart (warmup_started_at w) now,
        current_daily_limit :=
          (if unhealthy w then current_daily_limit w
           else if current_daily_limit w \<ge> target_daily_limit w then target_daily_limit w
           else (case capped_table_limit (calculateDaysSinceStart (warmup_started_at w) now)
                        (target_daily_limit w) of
                   Some l \<Rightarrow> if l > current_daily_limit w then l else current_daily_limit w
                 | None \<Rightarrow> current_daily_limit w)),
        is_healthy := \<not> unhealthy w,
        w_status :=
          (if unhealthy w then WarmupPaused
           else if current_daily_limit w \<ge> target_daily_limit w then WarmupCompleted
           else WarmupActive),
        w_updated_at := now \<rparr>"
proof -
  let ?day = "calculateDaysSinceStart (warmup_started_at w) now"
  let ?x = "getExpectedLimit ?day (target_daily_limit w)"
  have "(if ?x > current_daily_limit w then ?x else current_daily_limit w)
        = (case capped_table_limit ?day (target_daily_limit w) of
             Some l \<Rightarrow> if l > current_daily_limit w then l else current_daily_limit w
           | None \<Rightarrow> current_daily_limit w)"
    using assms(2)
    by (auto simp: getExpectedLimit_table capped_table_limit_def split: option.splits)
  note eq = this
  have "update_warmup now w w =
     w\<lparr> warmup_day := ?day,
        current_daily_limit :=
          (if unhealthy w then current_daily_limit w
           else if current_daily_limit w \<ge> target_daily_limit w then target_daily_limit w
           else (if ?x > current_daily_limit w then ?x else current_daily_limit w)),
        is_healthy := \<not> unhealthy w,
        w_status :=
          (if unhealthy w then WarmupPaused
           else if current_daily_limit w \<ge> target_daily_limit w then WarmupCompleted
           else WarmupActive),
        w_updated_at := now \<rparr>"
    using assms(1)
    by (simp add: update_warmup_def determine_status_def unhealthy_iff Let_def)
  then show ?thesis
    unfolding eq .
qed

text \<open>
  Rows are created with a limit of 10, and the job leaves no active row with less: a row
  that is still active after the run has a limit of at least 10 if it had one before.
\<close>

lemma active_limit_stays_at_least_10:
  assumes "10 \<le> current_daily_limit w"
    and "w_status (update_warmup now w w) = WarmupActive"
  shows "10 \<le> current_daily_limit (update_warmup now w w)"
  using assms
  by (auto simp: update_warmup_def determine_status_def Let_def split: if_splits)

text \<open>
  C4. For a row with status active (in a table with distinct ids) the job decides in this
  order, first match wins: unhealthy (at least 50 sent, and delivered/sent below 95% or
  bounced/sent above 2%): status paused, limit unchanged; else limit at or above the
  target: status completed; else the limit derived from the table for the elapsed day,
  capped at the target, above the current limit: the limit is raised to it; else limit
  and status unchanged. Every branch writes the elapsed day, the limit, the health flag,
  the status and the time of the run. The row is one the application has: its limit is at
  least 10, the limit rows are created with and that the job only raises; and the run is
  less than \<open>2 ^ 53\<close> milliseconds from the start of the warm-up, where the quotient the
  code takes in double precision has the exact ceiling.
\<close>

theorem warmup_progression:
  assumes "distinct (map w_id table)" and "w \<in> set table" and "w_status w = WarmupActive"
    and "10 \<le> current_daily_limit w"
    and "\<bar>now - warmup_started_at w\<bar> < 2 ^ 53"
  shows
    "let day = calculateDaysSinceStart (warmup_started_at w) now;
         current = current_daily_limit w;
         target = target_daily_limit w;
         derived = capped_table_limit day target
     in find (\<lambda>r. w_id r = w_id w) (warmup_handler now table) =
          Some (w\<lparr> warmup_day := day,
                   current_daily_limit :=
                     (if unhealthy w then current
                      else if current \<ge> target then target
                      else (case derived of
                              Some l \<Rightarrow> if l > current then l else current
                            | None \<Rightarrow> current)),
                   is_healthy := \<not> unhealthy w,
                   w_status :=
                     (if unhealthy w then WarmupPaused
                      else if current \<ge> target then WarmupCompleted
                      else WarmupActive),
                   w_updated_at := now \<rparr>)"
proof -
  let ?U = "\<lambda>row. if w_status row = WarmupActive then update_warmup now row row else row"
  have "find (\<lambda>r. w_id r = w_id w) (map ?U table)
          = map_option ?U (find (\<lambda>r. w_id r = w_id w) table)"
    by (induction table) (auto simp: update_warmup_id)
  moreover have "find (\<lambda>r. w_id r = w_id w) table = Some w"
    using find_filter_distinct [OF assms(1,2), of "\<lambda>_. True"] by simp
  ultimately have "find (\<lambda>r. w_id r = w_id w) (warmup_handler now table)
                     = Some (update_warmup now w w)"
    using assms(3) by (simp add: warmup_handler_rows [OF assms(1)])
  then show ?thesis
    unfolding Let_def update_warmup_decision [OF assms(3,4)] .
qed

text \<open>
  Three runs on a row with limit 10 and target 1000, started at time 0. On day 7, with 60
  sent, 58 delivered and 2 bounced (a bounce rate of 3.3%), the row is paused and its
  limit stays 10. On day 7, with nothing sent, the limit is raised to 50, the table limit
  of day 7. On day 1 the table limit is 10, and nothing but the time of the run changes.
\<close>

theorem warmup_progression_witness:
  "find (\<lambda>r. w_id r = ''w1'')
     (warmup_handler 604800000
        [(example_warmup 10)\<lparr>total_sent := 60, total_delivered := 58, total_bounced := 2\<rparr>])
     = Some ((example_warmup 10)
              \<lparr>total_sent := 60, total_delivered := 58, total_bounced := 2, warmup_day := 7,
               current_daily_limit := 10, is_healthy := False, w_status := WarmupPaused,
               w_updated_at := 604800000\<rparr>) \<and>
   find (\<lambda>r. w_id r = ''w1'') (warmup_handler 604800000 [example_warmup 10])
     = Some ((example_warmup 10)
              \<lparr>warmup_day := 7, current_daily_limit := 50, is_healthy := True,
               w_status := WarmupActive, w_updated_at := 604800000\<rparr>) \<and>
   find (\<lambda>r. w_id r = ''w1'') (warmup_handler 86400000 [example_warmup 10])
     = Some ((example_warmup 10)
              \<lparr>warmup_day := 1, current_daily_limit := 10, is_healthy := True,
               w_status := WarmupActive, w_updated_at := 86400000\<rparr>)"
  (is "?A \<and> ?B \<and> ?C")
proof -
  let ?w = "example_warmup 10"
  let ?u = "(example_warmup 10)\<lparr>total_sent := 60, total_delivered := 58, total_bounced := 2\<rparr>"
  have d7: "calculateDaysSinceStart 0 604800000 = 7" by (simp add: calculateDaysSinceStart_div)
  have d1: "calculateDaysSinceStart 0 86400000 = 1" by (simp add: calculateDaysSinceStart_div)
  have t7: "capped_table_limit 7 1000 = Some 50"
    by (simp add: capped_table_limit_def table_limit_last WARMUP_SCHEDULE_def)
  have t1: "capped_table_limit 1 1000 = Some 10"
    by (simp add: capped_table_limit_def table_limit_last WARMUP_SCHEDULE_def)
  have u: "unhealthy ?u" by (simp add: unhealthy_def example_warmup_def)
  have h: "\<not> unhealthy ?w" by (simp add: unhealthy_def example_warmup_def)
  have a: ?A
    using warmup_progression [of "[?u]" ?u 604800000] u d7
    by (simp add: Let_def example_warmup_def)
  have b: ?B
    using warmup_progression [of "[?w]" ?w 604800000] h d7 t7
    by (simp add: Let_def example_warmup_def)
  have c: ?C
    using warmup_progression [of "[?w]" ?w 86400000] h d1 t1
    by (simp add: Let_def example_warmup_def)
  from a b c show ?thesis by blast
qed

section \<open>Properties of open tracking\<close>

lemma bind_args_same_names:
  "bind_args b [''p_campaign_id'', ''p_stat_field''] [(''p_campaign_id'', x), (''p_stat_field'', y)]
     = Some [x, y]"
  by (simp add: bind_args_def)

text \<open>
  The pixel endpoint does what the claim says. On the first open of a recipient (no
  \<^verbatim>\<open>opened_at\<close> yet) the counter of its campaign goes up by one, as does its own; on a
  later open only its own counter goes up.
\<close>

lemma track_open_first:
  assumes "single (filter (\<lambda>r. cl_id r = rid) (campaign_leads w)) = Some cl"
    and "opened_at cl = None"
  shows "campaigns (snd (track_open e rid w)) =
           map (\<lambda>c. if c_id c = campaign_id cl then c\<lparr>c_opened_count := c_opened_count c + 1\<rparr> else c)
               (campaigns w)"
    and "campaign_leads (snd (track_open e rid w)) =
           map (\<lambda>r. if cl_id r = rid
                     then r\<lparr>opened_count := opened_count cl + 1, opened_at := Some (clock_now e),
                            cl_status := Opened\<rparr>
                     else r) (campaign_leads w)"
  using assms
  by (simp_all add: track_open_def Let_def rpc_def bind_args_same_names increment_campaign_stat_def
      update_campaign_def update_campaign_lead_def insert_event_def bump_stat_def num_or_def)

lemma track_open_again:
  assumes "single (filter (\<lambda>r. cl_id r = rid) (campaign_leads w)) = Some cl"
    and "opened_at cl = Some t"
  shows "campaigns (snd (track_open e rid w)) = campaigns w"
    and "campaign_leads (snd (track_open e rid w)) =
           map (\<lambda>r. if cl_id r = rid then r\<lparr>opened_count := opened_count cl + 1\<rparr> else r)
               (campaign_leads w)"
  using assms
  by (simp_all add: track_open_def Let_def update_campaign_lead_def insert_event_def num_or_def)

text \<open>
  C1. The claim: the first open event of a recipient, by the pixel or by a webhook event
  \<^verbatim>\<open>email.opened\<close>, adds one to the counter of the campaign, and every later one leaves
  that counter and adds one to the counter of the recipient. The webhook does not: it
  never reads \<^verbatim>\<open>opened_at\<close> and updates the statistics on every event. Two events for
  one recipient, after which the claim has the counters at 1 (campaign) and 2
  (recipient): with arguments bound by position they stand at 2 and 2; with arguments
  bound by name the calls of the webhook, which do not use the parameter names of the SQL
  functions, change nothing, and they stand at 0 and 0. Through the pixel they stand at 1
  and 2.
\<close>

theorem webhook_open_ignores_first_open:
  "opened_counts (example_world [example_recipient ''r1'' ''l1'' Sent (Some ''m1'')]) = ([0], [0]) \<and>
   opened_counts
     (snd (resend_webhook (example_env False) opened_event
        (snd (resend_webhook (example_env False) opened_event
           (example_world [example_recipient ''r1'' ''l1'' Sent (Some ''m1'')])))))
     = ([2], [2]) \<and>
   opened_counts
     (snd (resend_webhook (example_env True) opened_event
        (snd (resend_webhook (example_env True) opened_event
           (example_world [example_recipient ''r1'' ''l1'' Sent (Some ''m1'')])))))
     = ([0], [0]) \<and>
   opened_counts
     (snd (track_open (example_env True) ''r1''
        (snd (track_open (example_env True) ''r1''
           (example_world [example_recipient ''r1'' ''l1'' Sent (Some ''m1'')])))))
     = ([1], [2])"
  by code_simp

section \<open>Properties of the send job\<close>

lemma filter_key_distinct:
  "distinct (map f xs) \<Longrightarrow> x \<in> set xs \<Longrightarrow> filter (\<lambda>u. f u = f x) xs = [x]"
proof (induction xs)
  case Nil
  then show ?case by simp
next
  case (Cons a xs)
  show ?case
  proof (cases "x = a")
    case True
    from Cons.prems(1) have "\<forall>u\<in>set xs. f u \<noteq> f a" by (metis distinct.simps(2) imageI list.simps(9) set_map)
    then have "filter (\<lambda>u. f u = f a) xs = []" by (simp add: filter_empty_conv)
    with True show ?thesis by simp
  next
    case False
    with Cons.prems have x: "x \<in> set xs" and d: "distinct (map f xs)" by auto
    with Cons.prems(1) have "f a \<noteq> f x" by (metis distinct.simps(2) imageI list.simps(9) set_map)
    with Cons.IH [OF d x] show ?thesis by simp
  qed
qed

lemma single_unique:
  assumes "distinct (map f xs)" "k \<in> set (map f xs)"
  shows "\<exists>x. single (filter (\<lambda>u. f u = k) xs) = Some x"
proof -
  from assms(2) obtain x where "x \<in> set xs" "f x = k" by auto
  with filter_key_distinct [OF assms(1), of x] show ?thesis by (auto simp: single_def)
qed


text \<open>
  C5. A send job whose destination address has a row in the unsubscribe table (in which
  an address has at most one row, by the unique constraint) never reaches the email
  provider; and unless the callback is turned away at the signature gate, the handler
  marks the recipient skipped, whatever its status was, and answers that the address is
  unsubscribed, changing nothing else.
\<close>

theorem unsubscribed_is_skipped:
  assumes "json_body req = Some job"
    and "distinct (map u_email (unsubscribes w))"
    and "job_to job \<in> set (map u_email (unsubscribes w))"
  shows "provider_requests (snd (email_send e req w)) = provider_requests w \<and>
         ((NODE_ENV e = ''production'' \<longrightarrow> (\<exists>s. upstash_signature req = Some s \<and> s \<noteq> [])) \<longrightarrow>
          email_send e req w =
            (\<lparr>res_status = 200, res_body = Json_unsubscribed\<rparr>,
             w\<lparr>campaign_leads :=
                  map (\<lambda>r. if cl_id r = job_campaignLeadId job
                            then r\<lparr>cl_status := Skipped,
                                   error_message := Some ''Email is unsubscribed''\<rparr>
                            else r) (campaign_leads w)\<rparr>))"
proof -
  from single_unique [OF assms(2,3)] obtain u
    where u: "single (filter (\<lambda>u. u_email u = job_to job) (unsubscribes w)) = Some u" by blast
  have a: "provider_requests (snd (email_send e req w)) = provider_requests w"
    using assms(1) u by (simp add: email_send_def Let_def update_campaign_lead_def)
  have b: "(NODE_ENV e = ''production'' \<longrightarrow> (\<exists>s. upstash_signature req = Some s \<and> s \<noteq> [])) \<longrightarrow>
          email_send e req w =
            (\<lparr>res_status = 200, res_body = Json_unsubscribed\<rparr>,
             w\<lparr>campaign_leads :=
                  map (\<lambda>r. if cl_id r = job_campaignLeadId job
                            then r\<lparr>cl_status := Skipped,
                                   error_message := Some ''Email is unsubscribed''\<rparr>
                            else r) (campaign_leads w)\<rparr>)"
    using assms(1) u by (auto simp: email_send_def Let_def update_campaign_lead_def or_else_def)
  from a b show ?thesis by (rule conjI)
qed

theorem unsubscribed_is_skipped_witness:
  "email_send (example_env True) (callback ''any'' example_job)
     ((example_world [example_recipient ''r1'' ''l1'' Queued None])\<lparr>unsubscribes := [ana_unsubscribed]\<rparr>)
   = (\<lparr>res_status = 200, res_body = Json_unsubscribed\<rparr>,
      (example_world [(example_recipient ''r1'' ''l1'' Queued None)
                        \<lparr>cl_status := Skipped, error_message := Some ''Email is unsubscribed''\<rparr>])
        \<lparr>unsubscribes := [ana_unsubscribed]\<rparr>)"
proof -
  let ?w = "(example_world [example_recipient ''r1'' ''l1'' Queued None])\<lparr>unsubscribes := [ana_unsubscribed]\<rparr>"
  have 1: "json_body (callback ''any'' example_job) = Some example_job"
    by (simp add: callback_def)
  have 2: "distinct (map u_email (unsubscribes ?w))" by simp
  have 3: "job_to example_job \<in> set (map u_email (unsubscribes ?w))"
    by (simp add: example_job_def ana_unsubscribed_def)
  have 4: "NODE_ENV (example_env True) = ''production'' \<longrightarrow>
             (\<exists>s. upstash_signature (callback ''any'' example_job) = Some s \<and> s \<noteq> [])"
    by (simp add: callback_def)
  from unsubscribed_is_skipped [OF 1 2 3, of "example_env True"] 4
  have "email_send (example_env True) (callback ''any'' example_job) ?w =
          (\<lparr>res_status = 200, res_body = Json_unsubscribed\<rparr>,
           ?w\<lparr>campaign_leads :=
                 map (\<lambda>r. if cl_id r = job_campaignLeadId example_job
                           then r\<lparr>cl_status := Skipped,
                                  error_message := Some ''Email is unsubscribed''\<rparr>
                           else r) (campaign_leads ?w)\<rparr>)"
    by blast
  then show ?thesis
    by (simp add: example_world_def example_job_def example_recipient_def)
qed

section \<open>Properties of the dispatch pipeline\<close>

lemma update_campaign_lead_frame [simp]:
  "published (update_campaign_lead rid f w) = published w"
  "campaign_leads (update_campaign_lead rid f w) = map (\<lambda>r. if cl_id r = rid then f r else r) (campaign_leads w)"
  by (simp_all add: update_campaign_lead_def)

text \<open>
  The loop, in full: it works through a prefix of the batch, cut at the first publication
  that fails; every message before the cut was taken by the queue.
\<close>

lemma queue_loop_prefix:
  "queue_loop e c D i batch q w = (out, w') \<Longrightarrow>
   \<exists>k\<le>length batch.
     w' = w\<lparr>published := published w @ messages e c D i (take k batch),
            campaign_leads := marks e c (take k batch) (campaign_leads w)\<rparr> \<and>
     (\<forall>j<k. \<forall>lead. snd (batch ! j) = Some lead \<longrightarrow>
        \<not> publish_throws e (publish_options e (build_job e c (fst (batch ! j)) lead)
                               (Some (int (i + j) * D)))) \<and>
     (case out of
        Throw \<Rightarrow> k < length batch \<and>
                 (\<exists>lead. snd (batch ! k) = Some lead \<and>
                    publish_throws e (publish_options e (build_job e c (fst (batch ! k)) lead)
                                        (Some (int (i + k) * D))))
      | Return n \<Rightarrow> k = length batch \<and> n = q + int (length (messages e c D i batch)))"
proof (induction e c D i batch q w rule: queue_loop.induct)
  case (1 e c D i q w)
  then show ?case by auto
next
  case (2 e c D i cl rest q w)
  from 2 obtain k where k: "k \<le> length rest"
    "w' = w\<lparr>published := published w @ messages e c D (i + 1) (take k rest),
            campaign_leads := marks e c (take k rest) (campaign_leads w)\<rparr>"
    "\<forall>j<k. \<forall>lead. snd (rest ! j) = Some lead \<longrightarrow>
        \<not> publish_throws e (publish_options e (build_job e c (fst (rest ! j)) lead)
                               (Some (int (i + 1 + j) * D)))"
    "(case out of
        Throw \<Rightarrow> k < length rest \<and>
                 (\<exists>lead. snd (rest ! k) = Some lead \<and>
                    publish_throws e (publish_options e (build_job e c (fst (rest ! k)) lead)
                                        (Some (int (i + 1 + k) * D))))
      | Return n \<Rightarrow> k = length rest \<and> n = q + int (length (messages e c D (i + 1) rest)))"
    by auto
  have acc: "\<forall>j<Suc k. \<forall>lead. snd (((cl, None) # rest) ! j) = Some lead \<longrightarrow>
        \<not> publish_throws e (publish_options e (build_job e c (fst (((cl, None) # rest) ! j)) lead)
                               (Some (int (i + j) * D)))"
    using k(3) by (auto simp: less_Suc_eq_0_disj add_ac)
  show ?case
    by (rule exI [of _ "Suc k"]) (use k(1,2,4) acc in \<open>auto split: outcome.splits\<close>)
next
  case (3 e c D i cl lead rest q w)
  let ?m = "publish_options e (build_job e c cl lead) (Some (int i * D))"
  show ?case
  proof (cases "publish_throws e ?m")
    case True
    with 3(2) have "out = Throw" "w' = w" by (auto simp: queueEmailSend_def Let_def)
    then show ?thesis using True by (intro exI [of _ 0]) auto
  next
    case False
    let ?w1 = "update_campaign_lead (cl_id cl) (mark_queued e c lead) (w\<lparr>published := published w @ [?m]\<rparr>)"
    from False 3(2) have run: "queue_loop e c D (i + 1) rest (q + 1) ?w1 = (out, w')"
      by (simp add: queueEmailSend_def Let_def)
    have q: "queueEmailSend e (build_job e c cl lead) (Some (int i * D)) w
               = (Return (), w\<lparr>published := published w @ [?m]\<rparr>)"
      using False by (simp add: queueEmailSend_def Let_def)
    from 3(1) [OF refl refl q [symmetric] refl run]
    obtain k where k: "k \<le> length rest"
      "w' = ?w1\<lparr>published := published ?w1 @ messages e c D (i + 1) (take k rest),
            campaign_leads := marks e c (take k rest) (campaign_leads ?w1)\<rparr>"
      "\<forall>j<k. \<forall>lead. snd (rest ! j) = Some lead \<longrightarrow>
          \<not> publish_throws e (publish_options e (build_job e c (fst (rest ! j)) lead)
                                 (Some (int (i + 1 + j) * D)))"
      "(case out of
        Throw \<Rightarrow> k < length rest \<and>
                 (\<exists>lead. snd (rest ! k) = Some lead \<and>
                    publish_throws e (publish_options e (build_job e c (fst (rest ! k)) lead)
                                        (Some (int (i + 1 + k) * D))))
      | Return n \<Rightarrow> k = length rest \<and> n = q + 1 + int (length (messages e c D (i + 1) rest)))"
      by auto
    have acc: "\<forall>j<Suc k. \<forall>l. snd (((cl, Some lead) # rest) ! j) = Some l \<longrightarrow>
        \<not> publish_throws e (publish_options e (build_job e c (fst (((cl, Some lead) # rest) ! j)) l)
                               (Some (int (i + j) * D)))"
      using k(3) False by (auto simp: less_Suc_eq_0_disj add_ac)
    show ?thesis
      by (rule exI [of _ "Suc k"])
         (use k(1,2,4) acc in \<open>auto simp: update_campaign_lead_def split: outcome.splits\<close>)
  qed
qed

text \<open>
  So the loop stops at the first message the queue rejects, and throws there; when the
  queue takes every message it runs to the end of the batch and returns the number of
  messages.
\<close>

lemma queue_loop_stop:
  "queue_loop e c D 0 batch q w =
     (if stop_position e c D batch = length batch
      then Return (q + int (length (messages e c D 0 batch))) else Throw,
      w\<lparr>published := published w @ messages e c D 0 (take (stop_position e c D batch) batch),
        campaign_leads := marks e c (take (stop_position e c D batch) batch) (campaign_leads w)\<rparr>)"
proof -
  obtain out w' where run: "queue_loop e c D 0 batch q w = (out, w')"
    by (cases "queue_loop e c D 0 batch q w")
  from queue_loop_prefix [OF run] obtain k where k: "k \<le> length batch"
    and w': "w' = w\<lparr>published := published w @ messages e c D 0 (take k batch),
                    campaign_leads := marks e c (take k batch) (campaign_leads w)\<rparr>"
    and acc: "\<forall>j<k. \<forall>lead. snd (batch ! j) = Some lead \<longrightarrow>
                \<not> publish_throws e (publish_options e (build_job e c (fst (batch ! j)) lead)
                                       (Some (int (0 + j) * D)))"
    and out: "case out of
                Throw \<Rightarrow> k < length batch \<and>
                  (\<exists>lead. snd (batch ! k) = Some lead \<and>
                     publish_throws e (publish_options e (build_job e c (fst (batch ! k)) lead)
                                         (Some (int (0 + k) * D))))
              | Return n \<Rightarrow> k = length batch \<and> n = q + int (length (messages e c D 0 batch))"
    by blast
  have before: "\<forall>j<k. \<not> rejected e c D batch j"
    using acc by (auto simp: rejected_def message_at_def split: option.splits)
  have stop: "stop_position e c D batch = k"
  proof (cases out)
    case (Return n)
    with out have "k = length batch" by simp
    with before have "find (rejected e c D batch) [0..<length batch] = None"
      by (simp add: find_None_iff)
    then show ?thesis using \<open>k = length batch\<close> by (simp add: stop_position_def)
  next
    case Throw
    with out have kl: "k < length batch" and "rejected e c D batch k"
      by (auto simp: rejected_def message_at_def)
    with before have "find (rejected e c D batch) [0..<length batch] = Some k"
      unfolding find_Some_iff
      by (intro exI [of _ k]) (auto simp del: upt_Suc)
    then show ?thesis by (simp add: stop_position_def)
  qed
  have "out = (if k = length batch then Return (q + int (length (messages e c D 0 batch))) else Throw)"
    using out by (cases out) auto
  with run w' stop show ?thesis by simp
qed

lemma stop_position_le: "stop_position e c D batch \<le> length batch"
proof (cases "find (rejected e c D batch) [0..<length batch]")
  case None
  then show ?thesis by (simp add: stop_position_def)
next
  case (Some k)
  then have "k \<in> set [0..<length batch]"
    unfolding find_Some_iff by (metis nth_mem)
  with Some show ?thesis by (simp add: stop_position_def)
qed

lemma stop_position_rejected:
  assumes "j < length batch" "rejected e c D batch j"
  shows "stop_position e c D batch < length batch"
    and "rejected e c D batch (stop_position e c D batch)"
proof -
  from assms have "find (rejected e c D batch) [0..<length batch] \<noteq> None"
    by (auto simp: find_None_iff)
  then obtain k where f: "find (rejected e c D batch) [0..<length batch] = Some k" by auto
  then have "k \<in> set [0..<length batch]" "rejected e c D batch k"
    unfolding find_Some_iff by (metis nth_mem)+
  with f show "stop_position e c D batch < length batch"
    and "rejected e c D batch (stop_position e c D batch)"
    by (simp_all add: stop_position_def)
qed

lemma stop_position_first:
  assumes "j < length batch" "rejected e c D batch j"
  shows "stop_position e c D batch \<le> j"
proof (cases "find (rejected e c D batch) [0..<length batch]")
  case None
  with assms show ?thesis by (auto simp: find_None_iff)
next
  case (Some k)
  then obtain i where i: "i < length [0..<length batch]" "k = [0..<length batch] ! i"
    and first: "\<forall>i'<i. \<not> rejected e c D batch ([0..<length batch] ! i')"
    unfolding find_Some_iff by blast
  from i have ki: "k = i" by simp
  have "\<not> j < k"
  proof
    assume "j < k"
    with ki first have "\<not> rejected e c D batch ([0..<length batch] ! j)" by simp
    with assms show False by simp
  qed
  with Some show ?thesis by (simp add: stop_position_def)
qed

lemma stop_position_accepting:
  assumes "\<forall>m. \<not> publish_throws e m"
  shows "stop_position e c D batch = length batch"
proof -
  have "find (rejected e c D batch) [0..<length batch] = None"
    unfolding find_None_iff using assms by (simp add: rejected_def split: option.splits)
  then show ?thesis by (simp add: stop_position_def)
qed

lemma recipient_and_delay_publish_options:
  "recipient_and_delay (publish_options e (build_job e c cl lead) (Some d)) = (cl_id cl, d)"
  by (simp add: recipient_and_delay_def publish_options_def build_job_def delay_of_def Let_def)

lemma positions_Cons:
  "map f (filter P [0..<length (x # xs)]) =
     (if P 0 then [f 0] else []) @ map (f \<circ> Suc) (filter (P \<circ> Suc) [0..<length xs])"
proof -
  have "[0..<length (x # xs)] = 0 # map Suc [0..<length xs]"
    by (simp add: upt_conv_Cons map_Suc_upt del: upt_Suc)
  then show ?thesis by (simp add: filter_map comp_def)
qed

lemma messages_positions:
  "map recipient_and_delay (messages e c D i xs) =
     map (\<lambda>j. (cl_id (fst (xs ! j)), int (i + j) * D))
         (filter (\<lambda>j. snd (xs ! j) \<noteq> None) [0..<length xs])"
proof (induction e c D i xs rule: messages.induct)
  case (1 e c D i)
  show ?case by simp
next
  case (2 e c D i cl rest)
  show ?case
    unfolding positions_Cons using 2 by (simp add: comp_def)
next
  case (3 e c D i cl lead rest)
  show ?case
    unfolding positions_Cons using 3 by (simp add: comp_def recipient_and_delay_publish_options)
qed

lemma messages_planned: "map recipient_and_delay (messages e c D 0 xs) = planned xs D"
  by (simp add: messages_positions planned_def)

lemma planned_increasing:
  assumes "0 < D"
  shows "sorted_wrt (<) (map snd (planned xs D))"
proof -
  have "sorted_wrt (<) (filter (\<lambda>j. snd (xs ! j) \<noteq> None) [0..<length xs])"
    by (intro sorted_wrt_filter) simp
  then have "sorted_wrt (\<lambda>a b. int a * D < int b * D) (filter (\<lambda>j. snd (xs ! j) \<noteq> None) [0..<length xs])"
    by (rule sorted_wrt_mono_rel [rotated]) (use assms in simp)
  then show ?thesis
    by (simp add: planned_def sorted_wrt_map comp_def)
qed

lemma mark_queued_fields [simp]:
  "cl_id (mark_queued e c lead r) = cl_id r"
  "cl_status (mark_queued e c lead r) = Queued"
  by (simp_all add: mark_queued_def Let_def)

lemma marks_ids: "map cl_id (marks e c xs tbl) = map cl_id tbl"
  by (induction e c xs tbl rule: marks.induct) (simp_all add: comp_def)

lemma marks_rows:
  "r' \<in> set (marks e c xs tbl) \<Longrightarrow>
   \<exists>r\<in>set tbl. cl_id r = cl_id r' \<and>
     (if \<exists>cl l. (cl, Some l) \<in> set xs \<and> cl_id cl = cl_id r' then cl_status r' = Queued else r' = r)"
proof (induction e c xs tbl rule: marks.induct)
  case (1 e c tbl)
  then show ?case by auto
next
  case (2 e c cl rest tbl)
  then show ?case by auto
next
  case (3 e c cl lead rest tbl)
  let ?f = "\<lambda>r. if cl_id r = cl_id cl then mark_queued e c lead r else r"
  from 3(2) have "r' \<in> set (marks e c rest (map ?f tbl))" by simp
  from 3(1) [OF this] obtain r1 where r1: "r1 \<in> set (map ?f tbl)" "cl_id r1 = cl_id r'"
    "if \<exists>cl l. (cl, Some l) \<in> set rest \<and> cl_id cl = cl_id r' then cl_status r' = Queued else r' = r1"
    by blast
  from r1(1) obtain r where r: "r \<in> set tbl" "r1 = ?f r" by auto
  have id: "cl_id r1 = cl_id r" using r(2) by simp
  show ?case
  proof (cases "\<exists>cl l. (cl, Some l) \<in> set rest \<and> cl_id cl = cl_id r'")
    case True
    with r1 r id show ?thesis by (intro bexI [of _ r]) auto
  next
    case False
    with r1 have e: "r' = r1" by simp
    show ?thesis
    proof (cases "cl_id r = cl_id cl")
      case True
      with e r id show ?thesis by (intro bexI [of _ r]) auto
    next
      case f: False
      with e r id False show ?thesis by (intro bexI [of _ r]) auto
    qed
  qed
qed

lemma pending_leads_fst:
  "map fst (pending_leads w cid n) =
     take (nat n) (filter (\<lambda>r. campaign_id r = cid \<and> cl_status r = Pending) (campaign_leads w))"
  by (simp add: pending_leads_def comp_def)

lemma pending_leads_rows:
  assumes "j < length (pending_leads w cid n)"
  shows "fst (pending_leads w cid n ! j) \<in> set (campaign_leads w)"
    and "cl_status (fst (pending_leads w cid n ! j)) = Pending"
proof -
  have "fst (pending_leads w cid n ! j) \<in> set (map fst (pending_leads w cid n))"
    using assms by simp
  then have "fst (pending_leads w cid n ! j)
               \<in> set (filter (\<lambda>r. campaign_id r = cid \<and> cl_status r = Pending) (campaign_leads w))"
    unfolding pending_leads_fst by (rule in_set_takeD)
  then show "fst (pending_leads w cid n ! j) \<in> set (campaign_leads w)"
    and "cl_status (fst (pending_leads w cid n ! j)) = Pending" by auto
qed

lemma pending_leads_distinct:
  assumes "distinct (map cl_id (campaign_leads w))"
  shows "distinct (map (cl_id \<circ> fst) (pending_leads w cid n))"
proof -
  have "map (cl_id \<circ> fst) (pending_leads w cid n) = map cl_id (map fst (pending_leads w cid n))"
    by simp
  also have "\<dots> = take (nat n) (map cl_id (filter (\<lambda>r. campaign_id r = cid \<and> cl_status r = Pending) (campaign_leads w)))"
    unfolding pending_leads_fst by (simp add: take_map)
  finally show ?thesis
    using assms by (simp add: distinct_map_filter distinct_take)
qed

lemma processCampaign_found:
  assumes "single (filter (\<lambda>c. c_id c = cid) (campaigns w)) = Some c"
  shows "processCampaign e cid w =
     (if c_status c \<noteq> Active then (Return 0, w)
      else if \<not> isWithinSendWindow e (send_window_start c) (send_window_end c) then (Return 0, w)
      else if today e \<notin> set (send_days c) then (Return 0, w)
      else dispatch e c (effectiveLimit c w) w)"
  using assms by (simp add: processCampaign_def)

lemma single_SomeD: "single (filter P xs) = Some x \<Longrightarrow> P x"
  by (auto simp: single_def split: list.splits) (metis filter_eq_ConsD)

lemma dispatch_cases:
  assumes "c_id c = cid" "dispatch e c cap w = (out, w')"
  shows "(out = Return 0 \<and> published w' = published w \<and> campaign_leads w' = campaign_leads w)
       \<or> (pending_leads w cid cap \<noteq> [] \<and>
          queue_loop e c (num_or (delay_between_sends c) 60) 0 (pending_leads w cid cap) 0 w = (out, w'))"
  using assms
  by (auto simp: dispatch_def Let_def update_campaign_def split: if_splits)


lemma nth_ids_distinct:
  assumes "distinct (map (cl_id \<circ> fst) batch)" "j < length batch" "j' < length batch"
    and "cl_id (fst (batch ! j')) = cl_id (fst (batch ! j))"
  shows "j' = j"
  using assms by (auto simp: distinct_conv_nth)

lemma unique_row:
  assumes "distinct (map cl_id tbl)" "r \<in> set tbl" "r0 \<in> set tbl" "cl_id r0 = cl_id r"
  shows "r0 = r"
  using assms by (meson distinct_map inj_onD)

lemma process_one_throws:
  assumes "processCampaign e cid w = (Throw, w')" "s \<noteq> []" "cid \<noteq> []"
  shows "campaign_process e \<lparr>upstash_signature = Some s, json_body = Some (Some cid)\<rparr> w
           = (internal_error, w')"
  using assms by (simp add: campaign_process_def Let_def or_else_def)


text \<open>
  An active campaign inside its window, on a send day and below the daily limit: with no
  pending recipient fetched it publishes nothing and returns 0, otherwise it runs the loop
  on the fetched batch.
\<close>

lemma processCampaign_idle:
  assumes "single (filter (\<lambda>c. c_id c = cid) (campaigns w)) = Some c"
    and "c_status c = Active"
    and "isWithinSendWindow e (send_window_start c) (send_window_end c)"
    and "today e \<in> set (send_days c)"
    and "pending_leads w cid (effectiveLimit c w) = []"
  shows "fst (processCampaign e cid w) = Return 0"
    and "published (snd (processCampaign e cid w)) = published w"
proof -
  have cid: "c_id c = cid" using single_SomeD [OF assms(1)] .
  have p: "processCampaign e cid w = dispatch e c (effectiveLimit c w) w"
    using assms(2-4) by (simp add: processCampaign_found [OF assms(1)])
  show "fst (processCampaign e cid w) = Return 0"
    and "published (snd (processCampaign e cid w)) = published w"
    unfolding p using assms(5)
    by (simp_all add: dispatch_def cid Let_def update_campaign_def)
qed

lemma processCampaign_loop:
  assumes "single (filter (\<lambda>c. c_id c = cid) (campaigns w)) = Some c"
    and "c_status c = Active"
    and "isWithinSendWindow e (send_window_start c) (send_window_end c)"
    and "today e \<in> set (send_days c)"
    and "canSendEmail w (effectiveLimit c w)"
    and "pending_leads w cid (effectiveLimit c w) \<noteq> []"
  shows "processCampaign e cid w =
           queue_loop e c (num_or (delay_between_sends c) 60) 0
             (pending_leads w cid (effectiveLimit c w)) 0 w"
proof -
  have cid: "c_id c = cid" using single_SomeD [OF assms(1)] .
  have p: "processCampaign e cid w = dispatch e c (effectiveLimit c w) w"
    using assms(2-4) by (simp add: processCampaign_found [OF assms(1)])
  show ?thesis
    unfolding p using assms(5,6) by (simp add: dispatch_def cid Let_def)
qed

text \<open>
  C9. Within one invocation for an active campaign (inside its window, on a send day,
  below the daily limit) whose delay between sends is positive, as every stored one is
  (30 to 3600 seconds, 60 by default): the fetched recipient at position \<open>j\<close>, counted
  from 0, is enqueued with delay \<open>j\<close> times the delay between sends, the first with delay
  0, in fetch order, and the delays of the messages published are strictly increasing.
  This holds for the recipients up to the position where the loop stops, which is the end
  of the batch when the queue takes every message; the invocation then returns the number
  of messages. (A recipient whose lead is missing gets no message and keeps its
  position.)
\<close>

theorem staggered_delays:
  assumes "single (filter (\<lambda>c. c_id c = cid) (campaigns w)) = Some c"
    and "c_status c = Active"
    and "isWithinSendWindow e (send_window_start c) (send_window_end c)"
    and "today e \<in> set (send_days c)"
    and "canSendEmail w (effectiveLimit c w)"
    and "0 < delay_between_sends c"
    and "processCampaign e cid w = (out, w')"
  shows "let batch = pending_leads w cid (effectiveLimit c w);
             delayBetween = delay_between_sends c;
             k = stop_position e c delayBetween batch
         in (\<exists>new. published w' = published w @ new \<and>
                   map recipient_and_delay new = planned (take k batch) delayBetween \<and>
                   sorted_wrt (<) (map delay_of new) \<and>
                   out = (if k = length batch then Return (int (length new)) else Throw)) \<and>
            k \<le> length batch \<and>
            ((\<forall>m. \<not> publish_throws e m) \<longrightarrow> k = length batch)"
proof -
  let ?batch = "pending_leads w cid (effectiveLimit c w)"
  let ?D = "delay_between_sends c"
  let ?k = "stop_position e c ?D ?batch"
  have D: "num_or ?D 60 = ?D" using assms(6) by (simp add: num_or_def)
  have "\<exists>new. published w' = published w @ new \<and>
              map recipient_and_delay new = planned (take ?k ?batch) ?D \<and>
              sorted_wrt (<) (map delay_of new) \<and>
              out = (if ?k = length ?batch then Return (int (length new)) else Throw)"
  proof (cases "?batch = []")
    case True
    from processCampaign_idle [OF assms(1-4) True] assms(7)
    have "out = Return 0" "published w' = published w" by simp_all
    moreover have "?k = 0" using True by (simp add: stop_position_def)
    ultimately show ?thesis
      using True by (intro exI [of _ "[]"]) (simp add: planned_def)
  next
    case False
    let ?new = "messages e c ?D 0 (take ?k ?batch)"
    have run: "queue_loop e c ?D 0 ?batch 0 w = (out, w')"
      using processCampaign_loop [OF assms(1-5) False] assms(7) unfolding D by simp
    have w': "published w' = published w @ ?new"
      and out: "out = (if ?k = length ?batch
                       then Return (int (length (messages e c ?D 0 ?batch))) else Throw)"
      using run unfolding queue_loop_stop by auto
    have p: "map recipient_and_delay ?new = planned (take ?k ?batch) ?D"
      by (rule messages_planned)
    have d: "map delay_of ?new = map snd (planned (take ?k ?batch) ?D)"
      unfolding p [symmetric] by (simp add: recipient_and_delay_def comp_def)
    have s: "sorted_wrt (<) (map delay_of ?new)"
      unfolding d using assms(6) by (rule planned_increasing)
    have "out = (if ?k = length ?batch then Return (int (length ?new)) else Throw)"
      using out by simp
    with w' p s show ?thesis by (intro exI [of _ ?new]) simp
  qed
  then show ?thesis
    unfolding Let_def using stop_position_le [of e c ?D ?batch] stop_position_accepting [of e c ?D ?batch]
    by blast
qed

text \<open>
  The campaign of the examples, delay between sends 60, with two pending recipients and a
  queue that takes every message: Ana goes out with delay 0, Bob with delay 60, and the
  invocation returns 2.
\<close>

theorem staggered_delays_witness:
  "fst (processCampaign (example_env True) ''c1'' two_pending) = Return 2 \<and>
   map recipient_and_delay (published (snd (processCampaign (example_env True) ''c1'' two_pending)))
     = [(''r1'', 0), (''r2'', 60)] \<and>
   sorted_wrt (<) (map delay_of (published (snd (processCampaign (example_env True) ''c1'' two_pending))))"
proof -
  let ?e = "example_env True"
  let ?r = "processCampaign ?e ''c1'' two_pending"
  let ?batch = "pending_leads two_pending ''c1'' (effectiveLimit example_campaign two_pending)"
  have 1: "single (filter (\<lambda>c. c_id c = ''c1'') (campaigns two_pending)) = Some example_campaign"
    by code_simp
  have 2: "c_status example_campaign = Active" by code_simp
  have 3: "isWithinSendWindow ?e (send_window_start example_campaign) (send_window_end example_campaign)"
    by code_simp
  have 4: "today ?e \<in> set (send_days example_campaign)" by code_simp
  have 5: "canSendEmail two_pending (effectiveLimit example_campaign two_pending)" by code_simp
  have 6: "0 < delay_between_sends example_campaign" by code_simp
  have 7: "?r = (fst ?r, snd ?r)" by simp
  have 8: "published two_pending = []" by code_simp
  have 9: "\<forall>m. \<not> publish_throws ?e m" by (simp add: example_env_def)
  have 10: "length ?batch = 2" by code_simp
  have 11: "planned ?batch (delay_between_sends example_campaign) = [(''r1'', 0), (''r2'', 60)]"
    by code_simp
  from staggered_delays [OF 1 2 3 4 5 6 7] 9
  obtain new where k: "stop_position ?e example_campaign (delay_between_sends example_campaign) ?batch
                         = length ?batch"
    and n: "published (snd ?r) = published two_pending @ new"
      "map recipient_and_delay new
         = planned (take (stop_position ?e example_campaign (delay_between_sends example_campaign) ?batch) ?batch)
             (delay_between_sends example_campaign)"
      "sorted_wrt (<) (map delay_of new)"
      "fst ?r = (if stop_position ?e example_campaign (delay_between_sends example_campaign) ?batch
                      = length ?batch
                 then Return (int (length new)) else Throw)"
    unfolding Let_def by blast
  from n(2) have m: "map recipient_and_delay new = [(''r1'', 0), (''r2'', 60)]"
    unfolding k 11 [symmetric] by simp
  then have "length new = 2" by (metis length_map length_Cons list.size(3) numeral_2_eq_2)
  with n(4) k have "fst ?r = Return 2" by simp
  with n(1,3) m 8 show ?thesis by simp
qed

text \<open>
  C2 fails on this input: two pending recipients, and a queue that rejects the message
  for the first of them. The loop has no \<^verbatim>\<open>try\<close>: the second recipient is not visited,
  nothing is published, both recipients stay pending, and the handler answers 500 with no
  count of queued messages. The claim has the second recipient queued and a count of 1
  returned.
\<close>

lemma enqueue_failure_stops_the_loop:
  "fst (campaign_process (failing_env ''ana@acme.test'') (callback ''any'' (Some ''c1'')) two_pending)
     = \<lparr>res_status = 500, res_body = Json_error ''Internal server error''\<rparr> \<and>
   map cl_status (campaign_leads
     (snd (campaign_process (failing_env ''ana@acme.test'') (callback ''any'' (Some ''c1'')) two_pending)))
     = [Pending, Pending] \<and>
   published
     (snd (campaign_process (failing_env ''ana@acme.test'') (callback ''any'' (Some ''c1'')) two_pending))
     = []"
  by code_simp

text \<open>
  C2 does not hold of the code, on any input of this kind. Let the queue reject the
  message of some fetched recipient of an active campaign (inside its window, on a send
  day, below the daily limit), and let \<open>k\<close> be the position of the first recipient whose
  message it rejects. Then the invocation throws: the failure is not caught. The messages
  of the recipients before \<open>k\<close> are published and those recipients are queued; the
  recipient at \<open>k\<close> and all after it stay pending, visited or not, and nothing is
  published for them; and the handler answers 500, with no count of queued messages. (The
  ids of the table are distinct, as its primary key has it.)
\<close>

theorem enqueue_failure_aborts_batch:
  assumes "distinct (map cl_id (campaign_leads w))"
    and "single (filter (\<lambda>c. c_id c = cid) (campaigns w)) = Some c"
    and "c_status c = Active"
    and "isWithinSendWindow e (send_window_start c) (send_window_end c)"
    and "today e \<in> set (send_days c)"
    and "canSendEmail w (effectiveLimit c w)"
    and "j < length (pending_leads w cid (effectiveLimit c w))"
    and "rejected e c (num_or (delay_between_sends c) 60)
           (pending_leads w cid (effectiveLimit c w)) j"
  shows "let batch = pending_leads w cid (effectiveLimit c w);
             delayBetween = num_or (delay_between_sends c) 60;
             k = stop_position e c delayBetween batch;
             w' = snd (processCampaign e cid w)
         in k \<le> j \<and> rejected e c delayBetween batch k \<and>
            fst (processCampaign e cid w) = Throw \<and>
            published w' = published w @ messages e c delayBetween 0 (take k batch) \<and>
            map cl_id (campaign_leads w') = map cl_id (campaign_leads w) \<and>
            (\<forall>i<length batch. \<forall>r\<in>set (campaign_leads w'). cl_id r = cl_id (fst (batch ! i)) \<longrightarrow>
               cl_status r = (if i < k \<and> snd (batch ! i) \<noteq> None then Queued else Pending)) \<and>
            (\<forall>s. s \<noteq> [] \<and> cid \<noteq> [] \<longrightarrow>
               campaign_process e \<lparr>upstash_signature = Some s, json_body = Some (Some cid)\<rparr> w
                 = (internal_error, w'))"
proof -
  let ?batch = "pending_leads w cid (effectiveLimit c w)"
  let ?D = "num_or (delay_between_sends c) 60"
  let ?k = "stop_position e c ?D ?batch"
  let ?w' = "snd (processCampaign e cid w)"
  have k: "?k < length ?batch" and rk: "rejected e c ?D ?batch ?k"
    using stop_position_rejected [OF assms(7,8)] by simp_all
  have kj: "?k \<le> j" using assms(7,8) by (rule stop_position_first)
  have ne: "?batch \<noteq> []" using assms(7) by auto
  have run: "processCampaign e cid w =
               (Throw, w\<lparr>published := published w @ messages e c ?D 0 (take ?k ?batch),
                         campaign_leads := marks e c (take ?k ?batch) (campaign_leads w)\<rparr>)"
    unfolding processCampaign_loop [OF assms(2-6) ne] queue_loop_stop using k by simp
  then have thr: "fst (processCampaign e cid w) = Throw"
    and w': "?w' = w\<lparr>published := published w @ messages e c ?D 0 (take ?k ?batch),
                     campaign_leads := marks e c (take ?k ?batch) (campaign_leads w)\<rparr>"
    by simp_all
  have dist: "distinct (map (cl_id \<circ> fst) ?batch)"
    using assms(1) by (rule pending_leads_distinct)
  have st: "\<forall>i<length ?batch. \<forall>r\<in>set (campaign_leads ?w'). cl_id r = cl_id (fst (?batch ! i)) \<longrightarrow>
              cl_status r = (if i < ?k \<and> snd (?batch ! i) \<noteq> None then Queued else Pending)"
  proof (intro allI impI ballI)
    fix i r
    assume i: "i < length ?batch" and r: "r \<in> set (campaign_leads ?w')"
      and id: "cl_id r = cl_id (fst (?batch ! i))"
    from r w' have "r \<in> set (marks e c (take ?k ?batch) (campaign_leads w))" by simp
    from marks_rows [OF this] obtain r0 where r0: "r0 \<in> set (campaign_leads w)" "cl_id r0 = cl_id r"
      and alt: "if \<exists>cl l. (cl, Some l) \<in> set (take ?k ?batch) \<and> cl_id cl = cl_id r
                then cl_status r = Queued else r = r0"
      by blast
    have iff: "(\<exists>cl l. (cl, Some l) \<in> set (take ?k ?batch) \<and> cl_id cl = cl_id r)
                 \<longleftrightarrow> i < ?k \<and> snd (?batch ! i) \<noteq> None"
    proof
      assume "\<exists>cl l. (cl, Some l) \<in> set (take ?k ?batch) \<and> cl_id cl = cl_id r"
      then obtain cl l where m: "(cl, Some l) \<in> set (take ?k ?batch)" and c: "cl_id cl = cl_id r"
        by blast
      from m obtain i' where i': "i' < length (take ?k ?batch)" "take ?k ?batch ! i' = (cl, Some l)"
        by (auto simp: in_set_conv_nth)
      then have i'k: "i' < ?k" and b: "?batch ! i' = (cl, Some l)" by simp_all
      from i'k k have "i' < length ?batch" by simp
      from nth_ids_distinct [OF dist i this] b c id have "i' = i" by simp
      with i'k b show "i < ?k \<and> snd (?batch ! i) \<noteq> None" by simp
    next
      assume a: "i < ?k \<and> snd (?batch ! i) \<noteq> None"
      then obtain l where l: "snd (?batch ! i) = Some l" by auto
      from a k have "take ?k ?batch ! i = ?batch ! i" "i < length (take ?k ?batch)" by simp_all
      then have "?batch ! i \<in> set (take ?k ?batch)" by (metis nth_mem)
      with l have "(fst (?batch ! i), Some l) \<in> set (take ?k ?batch)"
        by (metis prod.collapse)
      with id show "\<exists>cl l. (cl, Some l) \<in> set (take ?k ?batch) \<and> cl_id cl = cl_id r" by auto
    qed
    show "cl_status r = (if i < ?k \<and> snd (?batch ! i) \<noteq> None then Queued else Pending)"
    proof (cases "i < ?k \<and> snd (?batch ! i) \<noteq> None")
      case True
      with alt iff show ?thesis by simp
    next
      case False
      with alt iff have "r = r0" by simp
      with r0 have "r \<in> set (campaign_leads w)" by simp
      from unique_row [OF assms(1) pending_leads_rows(1) [OF i] this id]
      have "r = fst (?batch ! i)" .
      with pending_leads_rows(2) [OF i] False show ?thesis by simp
    qed
  qed
  have "processCampaign e cid w = (Throw, ?w')" using thr by (metis prod.collapse)
  then have h: "\<forall>s. s \<noteq> [] \<and> cid \<noteq> [] \<longrightarrow>
             campaign_process e \<lparr>upstash_signature = Some s, json_body = Some (Some cid)\<rparr> w
               = (internal_error, ?w')"
    using process_one_throws by blast
  have ids: "map cl_id (campaign_leads ?w') = map cl_id (campaign_leads w)"
    unfolding w' by (simp add: marks_ids)
  have pub: "published ?w' = published w @ messages e c ?D 0 (take ?k ?batch)"
    unfolding w' by simp
  show ?thesis
    unfolding Let_def using kj rk thr pub ids st h by blast
qed

text \<open>
  The input above, where the queue rejects the message for Ana, the first recipient: the
  invocation throws, nothing is published, both stay pending and the answer is 500. And
  the same with the message for Bob, the second recipient, rejected: Ana is queued, Bob
  stays pending, and the answer is 500 again.
\<close>

theorem enqueue_failure_aborts_batch_witness:
  "fst (processCampaign (failing_env ''ana@acme.test'') ''c1'' two_pending) = Throw \<and>
   campaign_process (failing_env ''ana@acme.test'') (callback ''any'' (Some ''c1'')) two_pending
     = (internal_error, snd (processCampaign (failing_env ''ana@acme.test'') ''c1'' two_pending)) \<and>
   published (snd (processCampaign (failing_env ''ana@acme.test'') ''c1'' two_pending)) = [] \<and>
   map cl_status (campaign_leads (snd (processCampaign (failing_env ''ana@acme.test'') ''c1'' two_pending)))
     = [Pending, Pending] \<and>
   fst (processCampaign (failing_env ''bob@acme.test'') ''c1'' two_pending) = Throw \<and>
   campaign_process (failing_env ''bob@acme.test'') (callback ''any'' (Some ''c1'')) two_pending
     = (internal_error, snd (processCampaign (failing_env ''bob@acme.test'') ''c1'' two_pending)) \<and>
   map recipient_and_delay
     (published (snd (processCampaign (failing_env ''bob@acme.test'') ''c1'' two_pending)))
     = [(''r1'', 0)] \<and>
   map cl_status (campaign_leads (snd (processCampaign (failing_env ''bob@acme.test'') ''c1'' two_pending)))
     = [Queued, Pending]"
proof -
  let ?a = "failing_env ''ana@acme.test''"
  let ?b = "failing_env ''bob@acme.test''"
  let ?batch = "pending_leads two_pending ''c1'' (effectiveLimit example_campaign two_pending)"
  let ?D = "num_or (delay_between_sends example_campaign) 60"
  have 1: "distinct (map cl_id (campaign_leads two_pending))" by code_simp
  have 2: "single (filter (\<lambda>c. c_id c = ''c1'') (campaigns two_pending)) = Some example_campaign"
    by code_simp
  have 3: "c_status example_campaign = Active" by code_simp
  have 4: "isWithinSendWindow ?a (send_window_start example_campaign) (send_window_end example_campaign)"
    "isWithinSendWindow ?b (send_window_start example_campaign) (send_window_end example_campaign)"
    by code_simp+
  have 5: "today ?a \<in> set (send_days example_campaign)" "today ?b \<in> set (send_days example_campaign)"
    by code_simp+
  have 6: "canSendEmail two_pending (effectiveLimit example_campaign two_pending)" by code_simp
  have 7: "0 < length ?batch" "1 < length ?batch" by code_simp+
  have 8: "rejected ?a example_campaign ?D ?batch 0" "rejected ?b example_campaign ?D ?batch 1"
    by code_simp+
  have a: "fst (processCampaign ?a ''c1'' two_pending) = Throw"
    "campaign_process ?a \<lparr>upstash_signature = Some ''any'', json_body = Some (Some ''c1'')\<rparr> two_pending
       = (internal_error, snd (processCampaign ?a ''c1'' two_pending))"
    using enqueue_failure_aborts_batch [OF 1 2 3 4(1) 5(1) 6 7(1) 8(1)]
    by (simp_all add: Let_def)
  have b: "fst (processCampaign ?b ''c1'' two_pending) = Throw"
    "campaign_process ?b \<lparr>upstash_signature = Some ''any'', json_body = Some (Some ''c1'')\<rparr> two_pending
       = (internal_error, snd (processCampaign ?b ''c1'' two_pending))"
    using enqueue_failure_aborts_batch [OF 1 2 3 4(2) 5(2) 6 7(2) 8(2)]
    by (simp_all add: Let_def)
  have c: "published (snd (processCampaign ?a ''c1'' two_pending)) = []"
    "map cl_status (campaign_leads (snd (processCampaign ?a ''c1'' two_pending))) = [Pending, Pending]"
    "map recipient_and_delay (published (snd (processCampaign ?b ''c1'' two_pending))) = [(''r1'', 0)]"
    "map cl_status (campaign_leads (snd (processCampaign ?b ''c1'' two_pending))) = [Queued, Pending]"
    by code_simp+
  from a b c show ?thesis by (simp add: callback_def)
qed

lemma single_Nil: "single [] = None"
  by (simp add: single_def)






text \<open>
  C8, as stated, is false within the last minute of the window: the code compares whole
  minutes only. At 17:00:30 the time of day is after the end of a window that ends at
  17:00:00, outside the inclusive interval, yet the hours and minutes of the clock are
  those of the end of the window: the campaign is dispatched, and both pending recipients
  are queued.
\<close>

theorem send_window_end_ignores_seconds:
  "send_window_end example_campaign = (17, 0, 0) \<and>
   seconds_of (send_window_end example_campaign)
     < time_of_day ((example_env True)\<lparr>clock_hours := 17, clock_minutes := 0, clock_seconds := 30\<rparr>) \<and>
   fst (processCampaign
          ((example_env True)\<lparr>clock_hours := 17, clock_minutes := 0, clock_seconds := 30\<rparr>)
          ''c1'' two_pending) = Return 2 \<and>
   map cl_status (campaign_leads (snd (processCampaign
          ((example_env True)\<lparr>clock_hours := 17, clock_minutes := 0, clock_seconds := 30\<rparr>)
          ''c1'' two_pending))) = [Queued, Queued]"
  by code_simp

text \<open>
  C8, amended. For an active campaign, when the time of day taken in whole minutes (the
  seconds dropped) is before the start or after the end of the send window, both taken in
  whole minutes, or the weekday (1 for Monday to 7 for Sunday) is not one of the send
  days, the invocation queues nothing and changes nothing: \<open>processCampaign\<close> returns 0
  and the same stores, and the handler called for this campaign answers with zero emails
  queued and the same stores.
\<close>

theorem outside_window_or_day_changes_nothing:
  assumes "single (filter (\<lambda>c. c_id c = cid) (campaigns w)) = Some c"
    and "c_status c = Active"
    and "minute_of_day e < minutes_of (send_window_start c)
         \<or> minute_of_day e > minutes_of (send_window_end c)
         \<or> (if clock_weekday e = 0 then 7 else clock_weekday e) \<notin> set (send_days c)"
  shows "processCampaign e cid w = (Return 0, w) \<and>
         (\<forall>s. s \<noteq> [] \<and> cid \<noteq> [] \<longrightarrow>
            campaign_process e \<lparr>upstash_signature = Some s, json_body = Some (Some cid)\<rparr> w
              = (\<lparr>res_status = 200, res_body = Json_processed 1 0\<rparr>, w))"
proof -
  obtain sh sm ss where s: "send_window_start c = (sh, sm, ss)" by (rule prod_cases3)
  obtain eh em es where e: "send_window_end c = (eh, em, es)" by (rule prod_cases3)
  have "\<not> isWithinSendWindow e (send_window_start c) (send_window_end c)
        \<or> today e \<notin> set (send_days c)"
    using assms(3) unfolding s e
    by (auto simp: isWithinSendWindow_def today_def num_or_def minute_of_day_def minutes_of_def)
  then have p: "processCampaign e cid w = (Return 0, w)"
    by (auto simp: processCampaign_found [OF assms(1)])
  then have "\<forall>s. s \<noteq> [] \<and> cid \<noteq> [] \<longrightarrow>
            campaign_process e \<lparr>upstash_signature = Some s, json_body = Some (Some cid)\<rparr> w
              = (\<lparr>res_status = 200, res_body = Json_processed 1 0\<rparr>, w)"
    by (simp add: campaign_process_def Let_def or_else_def)
  with p show ?thesis by simp
qed

text \<open>
  The campaign of the examples, window 09:00:00 to 17:00:00, Monday to Friday: at
  20:00:00, at 17:01:00 and at 08:59:59 on a Monday, and at 10:30:00 on a Sunday, nothing
  is queued and nothing changes.
\<close>

theorem outside_window_or_day_changes_nothing_witness:
  "processCampaign ((example_env True)\<lparr>clock_hours := 20, clock_minutes := 0\<rparr>) ''c1'' two_pending
     = (Return 0, two_pending) \<and>
   processCampaign ((example_env True)\<lparr>clock_hours := 17, clock_minutes := 1\<rparr>) ''c1'' two_pending
     = (Return 0, two_pending) \<and>
   processCampaign ((example_env True)\<lparr>clock_hours := 8, clock_minutes := 59, clock_seconds := 59\<rparr>)
       ''c1'' two_pending
     = (Return 0, two_pending) \<and>
   processCampaign ((example_env True)\<lparr>clock_weekday := 0\<rparr>) ''c1'' two_pending
     = (Return 0, two_pending) \<and>
   map c_status (campaigns two_pending) = [Active] \<and>
   map cl_status (campaign_leads two_pending) = [Pending, Pending]"
proof -
  let ?e1 = "(example_env True)\<lparr>clock_hours := 20, clock_minutes := 0\<rparr>"
  let ?e2 = "(example_env True)\<lparr>clock_hours := 17, clock_minutes := 1\<rparr>"
  let ?e3 = "(example_env True)\<lparr>clock_hours := 8, clock_minutes := 59, clock_seconds := 59\<rparr>"
  let ?e4 = "(example_env True)\<lparr>clock_weekday := 0\<rparr>"
  have 1: "single (filter (\<lambda>c. c_id c = ''c1'') (campaigns two_pending)) = Some example_campaign"
    by code_simp
  have 2: "c_status example_campaign = Active" by code_simp
  have 3: "minute_of_day ?e1 > minutes_of (send_window_end example_campaign)"
    "minute_of_day ?e2 > minutes_of (send_window_end example_campaign)"
    "minute_of_day ?e3 < minutes_of (send_window_start example_campaign)"
    by code_simp+
  have 4: "(if clock_weekday ?e4 = 0 then 7 else clock_weekday ?e4) \<notin> set (send_days example_campaign)"
    by code_simp
  from outside_window_or_day_changes_nothing [OF 1 2, of ?e1] 3(1)
  have a: "processCampaign ?e1 ''c1'' two_pending = (Return 0, two_pending)"
    by blast
  from outside_window_or_day_changes_nothing [OF 1 2, of ?e2] 3(2)
  have b: "processCampaign ?e2 ''c1'' two_pending = (Return 0, two_pending)"
    by blast
  from outside_window_or_day_changes_nothing [OF 1 2, of ?e3] 3(3)
  have c: "processCampaign ?e3 ''c1'' two_pending = (Return 0, two_pending)"
    by blast
  from outside_window_or_day_changes_nothing [OF 1 2, of ?e4] 4
  have d: "processCampaign ?e4 ''c1'' two_pending = (Return 0, two_pending)"
    by blast
  have f: "map c_status (campaigns two_pending) = [Active]" by code_simp
  have g: "map cl_status (campaign_leads two_pending) = [Pending, Pending]" by code_simp
  from a b c d f g show ?thesis by blast
qed

section \<open>The signature gate of the queue callbacks\<close>

lemma or_else_empty: "or_else x [] = [] \<longleftrightarrow> x = None \<or> x = Some []"
  by (auto simp: or_else_def split: option.splits)

lemma campaign_process_status:
  "res_status (fst (campaign_process e req w)) = 401 \<longleftrightarrow>
     NODE_ENV e = ''production'' \<and> (upstash_signature req = None \<or> upstash_signature req = Some [])"
  by (auto simp: campaign_process_def Let_def or_else_empty unauthorized_def internal_error_def
      split: option.splits prod.splits outcome.splits)

lemma email_send_status:
  "res_status (fst (email_send e req w)) = 401 \<longleftrightarrow>
     NODE_ENV e = ''production'' \<and> (upstash_signature req = None \<or> upstash_signature req = Some [])"
  by (auto simp: email_send_def Let_def or_else_empty unauthorized_def internal_error_def
      split: option.splits prod.splits provider_result.splits)

lemma campaign_process_any_signature:
  "s \<noteq> [] \<Longrightarrow> s' \<noteq> [] \<Longrightarrow>
   campaign_process e (req\<lparr>upstash_signature := Some s\<rparr>) w
     = campaign_process e (req\<lparr>upstash_signature := Some s'\<rparr>) w"
  by (simp add: campaign_process_def Let_def or_else_def)

lemma email_send_any_signature:
  "s \<noteq> [] \<Longrightarrow> s' \<noteq> [] \<Longrightarrow>
   email_send e (req\<lparr>upstash_signature := Some s\<rparr>) w
     = email_send e (req\<lparr>upstash_signature := Some s'\<rparr>) w"
  by (simp add: email_send_def Let_def or_else_def)

text \<open>
  C10. In production each of the two queue callbacks answers 401 exactly when the
  \<^verbatim>\<open>upstash-signature\<close> header is absent or empty. What a callback does with a request
  whose header is not empty does not depend on the value of the header: any two
  non-empty values give the same answer and the same stores, so nothing is verified. The
  \<open>verifySignature\<close> of the queue client, which the callbacks do not call, accepts
  every non-empty value as well.
\<close>

theorem callbacks_check_presence_only:
  assumes "NODE_ENV e = ''production''"
  shows "(res_status (fst (campaign_process e preq w)) = 401
            \<longleftrightarrow> upstash_signature preq = None \<or> upstash_signature preq = Some []) \<and>
         (res_status (fst (email_send e sreq w)) = 401
            \<longleftrightarrow> upstash_signature sreq = None \<or> upstash_signature sreq = Some []) \<and>
         (s \<noteq> [] \<and> s' \<noteq> [] \<longrightarrow>
            campaign_process e (preq\<lparr>upstash_signature := Some s\<rparr>) w
              = campaign_process e (preq\<lparr>upstash_signature := Some s'\<rparr>) w \<and>
            email_send e (sreq\<lparr>upstash_signature := Some s\<rparr>) w
              = email_send e (sreq\<lparr>upstash_signature := Some s'\<rparr>) w) \<and>
         (verifySignature e s \<longleftrightarrow> s \<noteq> [])"
proof -
  have "verifySignature e s \<longleftrightarrow> s \<noteq> []"
    using assms by (simp add: verifySignature_def)
  then show ?thesis
    using assms campaign_process_status [of e preq w] email_send_status [of e sreq w]
      campaign_process_any_signature [of s s' e preq w] email_send_any_signature [of s s' e sreq w]
    by blast
qed

theorem callbacks_check_presence_only_witness:
  "res_status (fst (campaign_process (example_env True)
      \<lparr>upstash_signature = None, json_body = Some (Some ''c1'')\<rparr> two_pending)) = 401 \<and>
   res_status (fst (email_send (example_env True)
      \<lparr>upstash_signature = Some [], json_body = Some example_job\<rparr> two_pending)) = 401 \<and>
   campaign_process (example_env True) (callback ''forged'' (Some ''c1'')) two_pending
     = campaign_process (example_env True) (callback ''genuine'' (Some ''c1'')) two_pending \<and>
   res_status (fst (campaign_process (example_env True) (callback ''forged'' (Some ''c1'')) two_pending))
     = 200 \<and>
   res_status (fst (email_send (example_env True) (callback ''forged'' example_job) two_pending))
     = 200 \<and>
   map m_to (provider_requests
     (snd (email_send (example_env True) (callback ''forged'' example_job) two_pending)))
     = [''ana@acme.test'']"
proof -
  let ?e = "example_env True"
  let ?p = "\<lparr>upstash_signature = None, json_body = Some (Some ''c1'')\<rparr>"
  let ?s = "\<lparr>upstash_signature = Some [], json_body = Some example_job\<rparr>"
  have 1: "NODE_ENV ?e = ''production''" by (simp add: example_env_def)
  note t = callbacks_check_presence_only [OF 1, of ?p two_pending ?s "''forged''" "''genuine''"]
  from t have a: "res_status (fst (campaign_process ?e ?p two_pending)) = 401" by simp
  from t have b: "res_status (fst (email_send ?e ?s two_pending)) = 401" by simp
  from t have c: "campaign_process ?e (callback ''forged'' (Some ''c1'')) two_pending
                    = campaign_process ?e (callback ''genuine'' (Some ''c1'')) two_pending"
    by (simp add: callback_def)
  have d: "res_status (fst (campaign_process ?e (callback ''forged'' (Some ''c1'')) two_pending)) = 200"
    by code_simp
  have f: "res_status (fst (email_send ?e (callback ''forged'' example_job) two_pending)) = 200"
    by code_simp
  have g: "map m_to (provider_requests
             (snd (email_send ?e (callback ''forged'' example_job) two_pending))) = [''ana@acme.test'']"
    by code_simp
  from a b c d f g show ?thesis by blast
qed

end
